theory Spec2Isabelle
  imports Main
begin

section \<open>Dynamic inventory from Terraform outputs (ansible/inventory/dynamic.py)\<close>

subsection \<open>JSON values and the Python operations the script applies to them\<close>

text \<open>
  The script works on what \<^verbatim>\<open>json.loads\<close> returns: \<^verbatim>\<open>None\<close>, booleans, numbers, strings,
  lists and dictionaries. A dictionary keeps its keys in insertion order, so it is an
  association list; a Python dictionary has no repeated key, and lookups below read the
  first entry of a key. \<open>JFloat m e\<close> stands for the finite float \<open>m * 2 ^ e\<close>; the script
  only ever tests a float for truth. A \<open>string\<close> is a list of characters, one per character
  of the Python string.
\<close>

datatype json =
    JNull
  | JBool bool
  | JInt int
  | JFloat int int
  | JStr string
  | JList "json list"
  | JObj "(string \<times> json) list"

text \<open>The exceptions that can leave the script's functions.\<close>

datatype py_error = KeyError | TypeError | AttributeError | JSONDecodeError | IndexError | OSError

type_synonym 'a result = "py_error + 'a"

text \<open>Sequencing: an exception raised by the first computation ends the whole one.\<close>

definition bind :: "'a result \<Rightarrow> ('a \<Rightarrow> 'b result) \<Rightarrow> 'b result" where
  "bind m f = (case m of Inl e \<Rightarrow> Inl e | Inr x \<Rightarrow> f x)"

text \<open>Truth value of an object, as \<^verbatim>\<open>if x:\<close> tests it.\<close>

fun truthy :: "json \<Rightarrow> bool" where
  "truthy JNull = False"
| "truthy (JBool b) = b"
| "truthy (JInt i) = (i \<noteq> 0)"
| "truthy (JFloat m e) = (m \<noteq> 0)"
| "truthy (JStr s) = (s \<noteq> [])"
| "truthy (JList xs) = (xs \<noteq> [])"
| "truthy (JObj kvs) = (kvs \<noteq> [])"

fun starts_with :: "string \<Rightarrow> string \<Rightarrow> bool" where
  "starts_with [] ys = True"
| "starts_with (x # xs) [] = False"
| "starts_with (x # xs) (y # ys) = (x = y \<and> starts_with xs ys)"

fun is_substring :: "string \<Rightarrow> string \<Rightarrow> bool" where
  "is_substring xs [] = (xs = [])"
| "is_substring xs (y # ys) = (starts_with xs (y # ys) \<or> is_substring xs ys)"

text \<open>
  \<^verbatim>\<open>k in x\<close> for a string \<open>k\<close>: key membership in a dictionary, element membership in a list,
  substring test in a string, \<^verbatim>\<open>TypeError\<close> on anything else.
\<close>

fun py_contains :: "json \<Rightarrow> string \<Rightarrow> bool result" where
  "py_contains (JObj kvs) k = Inr (k \<in> set (map fst kvs))"
| "py_contains (JList xs) k = Inr (JStr k \<in> set xs)"
| "py_contains (JStr s) k = Inr (is_substring k s)"
| "py_contains JNull k = Inl TypeError"
| "py_contains (JBool b) k = Inl TypeError"
| "py_contains (JInt i) k = Inl TypeError"
| "py_contains (JFloat m e) k = Inl TypeError"

text \<open>\<^verbatim>\<open>x[k]\<close> for a string \<open>k\<close>: \<^verbatim>\<open>KeyError\<close> on a missing key, \<^verbatim>\<open>TypeError\<close> off dictionaries.\<close>

fun py_getitem :: "json \<Rightarrow> string \<Rightarrow> json result" where
  "py_getitem (JObj kvs) k = (case map_of kvs k of None \<Rightarrow> Inl KeyError | Some v \<Rightarrow> Inr v)"
| "py_getitem (JList xs) k = Inl TypeError"
| "py_getitem (JStr s) k = Inl TypeError"
| "py_getitem JNull k = Inl TypeError"
| "py_getitem (JBool b) k = Inl TypeError"
| "py_getitem (JInt i) k = Inl TypeError"
| "py_getitem (JFloat m e) k = Inl TypeError"

text \<open>\<^verbatim>\<open>x.get(k, d)\<close>: only a dictionary has the method.\<close>

fun py_get :: "json \<Rightarrow> string \<Rightarrow> json \<Rightarrow> json result" where
  "py_get (JObj kvs) k d = Inr (case map_of kvs k of None \<Rightarrow> d | Some v \<Rightarrow> v)"
| "py_get (JList xs) k d = Inl AttributeError"
| "py_get (JStr s) k d = Inl AttributeError"
| "py_get JNull k d = Inl AttributeError"
| "py_get (JBool b) k d = Inl AttributeError"
| "py_get (JInt i) k d = Inl AttributeError"
| "py_get (JFloat m e) k d = Inl AttributeError"

text \<open>\<^verbatim>\<open>x.items()\<close>; \<^verbatim>\<open>x.keys()\<close> is the list of first components.\<close>

fun py_items :: "json \<Rightarrow> (string \<times> json) list result" where
  "py_items (JObj kvs) = Inr kvs"
| "py_items (JList xs) = Inl AttributeError"
| "py_items (JStr s) = Inl AttributeError"
| "py_items JNull = Inl AttributeError"
| "py_items (JBool b) = Inl AttributeError"
| "py_items (JInt i) = Inl AttributeError"
| "py_items (JFloat m e) = Inl AttributeError"

definition py_keys :: "json \<Rightarrow> string list result" where
  "py_keys x = bind (py_items x) (\<lambda>kvs. Inr (map fst kvs))"

text \<open>
  Assignment \<^verbatim>\<open>d[k] = v\<close> on a dictionary: a key already there keeps its place and gets the
  new value, a new key goes to the end.
\<close>

primrec dict_set :: "string \<Rightarrow> json \<Rightarrow> (string \<times> json) list \<Rightarrow> (string \<times> json) list" where
  "dict_set k v [] = [(k, v)]"
| "dict_set k v (p # ps) = (if fst p = k then (k, v) # ps else p # dict_set k v ps)"

fun py_setitem :: "json \<Rightarrow> string \<Rightarrow> json \<Rightarrow> json result" where
  "py_setitem (JObj kvs) k v = Inr (JObj (dict_set k v kvs))"
| "py_setitem (JList xs) k v = Inl TypeError"
| "py_setitem (JStr s) k v = Inl TypeError"
| "py_setitem JNull k v = Inl TypeError"
| "py_setitem (JBool b) k v = Inl TypeError"
| "py_setitem (JInt i) k v = Inl TypeError"
| "py_setitem (JFloat m e) k v = Inl TypeError"

text \<open>\<^verbatim>\<open>len(x)\<close> and iteration over \<open>x\<close>: a string yields its characters, a dictionary its keys.\<close>

fun py_len :: "json \<Rightarrow> nat result" where
  "py_len (JList xs) = Inr (length xs)"
| "py_len (JStr s) = Inr (length s)"
| "py_len (JObj kvs) = Inr (length kvs)"
| "py_len JNull = Inl TypeError"
| "py_len (JBool b) = Inl TypeError"
| "py_len (JInt i) = Inl TypeError"
| "py_len (JFloat m e) = Inl TypeError"

fun py_iter :: "json \<Rightarrow> json list result" where
  "py_iter (JList xs) = Inr xs"
| "py_iter (JStr s) = Inr (map (\<lambda>c. JStr [c]) s)"
| "py_iter (JObj kvs) = Inr (map (\<lambda>p. JStr (fst p)) kvs)"
| "py_iter JNull = Inl TypeError"
| "py_iter (JBool b) = Inl TypeError"
| "py_iter (JInt i) = Inl TypeError"
| "py_iter (JFloat m e) = Inl TypeError"

text \<open>\<^verbatim>\<open>s.split(sep)\<close> for a one-character separator; the result is never empty.\<close>

fun str_split :: "char \<Rightarrow> string \<Rightarrow> string list" where
  "str_split sep [] = [[]]"
| "str_split sep (c # cs) =
     (if c = sep then [] # str_split sep cs
      else (case str_split sep cs of [] \<Rightarrow> [[c]] | w # ws \<Rightarrow> (c # w) # ws))"

fun py_split :: "json \<Rightarrow> char \<Rightarrow> string list result" where
  "py_split (JStr s) sep = Inr (str_split sep s)"
| "py_split (JList xs) sep = Inl AttributeError"
| "py_split (JObj kvs) sep = Inl AttributeError"
| "py_split JNull sep = Inl AttributeError"
| "py_split (JBool b) sep = Inl AttributeError"
| "py_split (JInt i) sep = Inl AttributeError"
| "py_split (JFloat m e) sep = Inl AttributeError"

definition list_first :: "'a list \<Rightarrow> 'a result" where
  "list_first xs = (case xs of [] \<Rightarrow> Inl IndexError | x # _ \<Rightarrow> Inr x)"

text \<open>Decimal rendering of a natural number, as an f-string prints \<^verbatim>\<open>i+1\<close>.\<close>

definition digit_char :: "nat \<Rightarrow> char" where
  "digit_char d = ''0123456789'' ! d"

function string_of_nat :: "nat \<Rightarrow> string" where
  "string_of_nat n =
     (if n < 10 then [digit_char n] else string_of_nat (n div 10) @ [digit_char (n mod 10)])"
  by pat_completeness auto
termination
  by (relation "measure (\<lambda>n. n)") auto

declare string_of_nat.simps [simp del]

subsection \<open>The inventory object\<close>

text \<open>
  \<^verbatim>\<open>self.inventory\<close> is the only state of a \<^verbatim>\<open>TerraformInventory\<close>. Every method takes it
  and returns the new one; an exception discards it, as the process ends there.
\<close>

definition init_inventory :: json where
  "init_inventory = JObj [(''_meta'', JObj [(''hostvars'', JObj [])])]"

text \<open>\<^verbatim>\<open>self.inventory['_meta']['hostvars'][host] = vars\<close>\<close>

definition set_hostvar :: "string \<Rightarrow> json \<Rightarrow> json \<Rightarrow> json result" where
  "set_hostvar host vars iv =
     bind (py_getitem iv ''_meta'') (\<lambda>meta.
     bind (py_getitem meta ''hostvars'') (\<lambda>hv.
     bind (py_setitem hv host vars) (\<lambda>hv'.
     bind (py_setitem meta ''hostvars'' hv') (\<lambda>meta'.
     py_setitem iv ''_meta'' meta'))))"

text \<open>A \<^verbatim>\<open>for host, vars in ...\<close> loop whose body is that assignment.\<close>

fun set_hostvars :: "(string \<times> json) list \<Rightarrow> json \<Rightarrow> json result" where
  "set_hostvars [] iv = Inr iv"
| "set_hostvars ((host, vars) # rest) iv = bind (set_hostvar host vars iv) (set_hostvars rest)"

subsection \<open>Snapshot acquisition\<close>

text \<open>
  \<^verbatim>\<open>subprocess.run\<close> and \<^verbatim>\<open>json.loads\<close> are not code of this repository. The outcome of the
  command is an input of the model, and the decoder is a parameter \<open>loads\<close> that returns
  \<open>None\<close> where \<^verbatim>\<open>json.loads\<close> raises \<^verbatim>\<open>JSONDecodeError\<close>.
\<close>

datatype run_outcome =
    Completed string
  | CalledProcessError
  | NotStarted

definition get_terraform_output :: "(string \<Rightarrow> json option) \<Rightarrow> run_outcome \<Rightarrow> json result" where
  "get_terraform_output loads r =
     (case r of
        Completed out \<Rightarrow> (case loads out of Some j \<Rightarrow> Inr j | None \<Rightarrow> Inr (JObj []))
      | CalledProcessError \<Rightarrow> Inr (JObj [])
      | NotStarted \<Rightarrow> Inl OSError)"

subsection \<open>Preferred path and fallback\<close>

text \<open>
  The three blocks of \<^verbatim>\<open>parse_ansible_inventory\<close> for \<^verbatim>\<open>webservers\<close>, \<^verbatim>\<open>appservers\<close> and
  \<^verbatim>\<open>databases\<close> differ only in the group name and its default variables.
\<close>

definition process_group :: "string \<Rightarrow> json \<Rightarrow> json \<Rightarrow> json \<Rightarrow> json result" where
  "process_group name gvars children iv =
     bind (py_contains children name) (\<lambda>c1.
     if \<not> c1 then Inr iv else
     bind (py_getitem children name) (\<lambda>g.
     bind (py_contains g ''hosts'') (\<lambda>c2.
     if \<not> c2 then Inr iv else
     bind (py_getitem children name) (\<lambda>g1.
     bind (py_getitem g1 ''hosts'') (\<lambda>hs.
     bind (py_keys hs) (\<lambda>ks.
     bind (py_setitem iv name (JObj [(''hosts'', JList (map JStr ks)), (''vars'', gvars)])) (\<lambda>iv1.
     bind (py_getitem children name) (\<lambda>g2.
     bind (py_getitem g2 ''hosts'') (\<lambda>hs2.
     bind (py_items hs2) (\<lambda>its.
     set_hostvars its iv1))))))))))"

definition webservers_vars :: json where
  "webservers_vars = JObj [(''ansible_user'', JStr ''ubuntu''),
     (''ansible_ssh_private_key_file'', JStr ''~/.ssh/id_rsa''),
     (''server_type'', JStr ''webserver'')]"

definition appservers_vars :: json where
  "appservers_vars = JObj [(''ansible_user'', JStr ''ubuntu''),
     (''ansible_ssh_private_key_file'', JStr ''~/.ssh/id_rsa''),
     (''server_type'', JStr ''appserver'')]"

definition databases_vars :: json where
  "databases_vars = JObj [(''server_type'', JStr ''database'')]"

text \<open>
  The two blocks of \<^verbatim>\<open>_parse_individual_outputs\<close> for web and app servers differ only in the
  output name, the group name, the host prefix and the \<^verbatim>\<open>server_type\<close>.
\<close>

definition numbered_hosts :: "string \<Rightarrow> json list \<Rightarrow> (string \<times> json) list" where
  "numbered_hosts prefix ips =
     map (\<lambda>(i, ip). (prefix @ string_of_nat (i + 1),
                     JObj [(''ansible_host'', ip), (''ansible_user'', JStr ''ubuntu'')]))
         (List.enumerate 0 ips)"

definition extract_servers :: "string \<Rightarrow> string \<Rightarrow> string \<Rightarrow> string \<Rightarrow> json \<Rightarrow> json \<Rightarrow> json result" where
  "extract_servers oname gname prefix stype tf_outputs iv =
     bind (py_get tf_outputs oname (JObj [])) (\<lambda>entry.
     bind (py_get entry ''value'' (JList [])) (\<lambda>ips.
     if truthy ips then
       bind (py_len ips) (\<lambda>n.
       bind (py_setitem iv gname
              (JObj [(''hosts'', JList (map (\<lambda>i. JStr (prefix @ string_of_nat (i + 1))) [0..<n])),
                     (''vars'', JObj [(''ansible_user'', JStr ''ubuntu''),
                                      (''server_type'', JStr stype)])])) (\<lambda>iv1.
       bind (py_iter ips) (\<lambda>xs.
       set_hostvars (numbered_hosts prefix xs) iv1)))
     else Inr iv))"

definition extract_database :: "json \<Rightarrow> json \<Rightarrow> json result" where
  "extract_database tf_outputs iv =
     bind (py_get tf_outputs ''database_endpoint'' (JObj [])) (\<lambda>entry.
     bind (py_get entry ''value'' JNull) (\<lambda>db_endpoint.
     if truthy db_endpoint then
       bind (py_setitem iv ''databases''
              (JObj [(''hosts'', JList [JStr ''database'']),
                     (''vars'', JObj [(''server_type'', JStr ''database'')])])) (\<lambda>iv1.
       bind (py_split db_endpoint (CHR '':'')) (\<lambda>parts.
       bind (list_first parts) (\<lambda>host.
       bind (py_get tf_outputs ''database_engine'' (JObj [])) (\<lambda>e1.
       bind (py_get e1 ''value'' (JStr ''postgres'')) (\<lambda>engine.
       bind (py_get tf_outputs ''database_port'' (JObj [])) (\<lambda>e2.
       bind (py_get e2 ''value'' (JInt 5432)) (\<lambda>port.
       set_hostvar ''database''
         (JObj [(''ansible_host'', JStr host), (''db_engine'', engine), (''db_port'', port)])
         iv1)))))))
     else Inr iv))"

definition add_common_vars :: "json \<Rightarrow> json \<Rightarrow> json result" where
  "add_common_vars tf_outputs iv =
     bind (py_get tf_outputs ''infrastructure_info'' (JObj [])) (\<lambda>i1.
     bind (py_get i1 ''value'' (JObj [])) (\<lambda>v1.
     bind (py_get v1 ''environment'' (JStr ''unknown'')) (\<lambda>env.
     bind (py_get tf_outputs ''infrastructure_info'' (JObj [])) (\<lambda>i2.
     bind (py_get i2 ''value'' (JObj [])) (\<lambda>v2.
     bind (py_get v2 ''region'' (JStr ''us-west-2'')) (\<lambda>region.
     py_setitem iv ''all''
       (JObj [(''vars'', JObj [(''environment'', env),
                               (''project_name'', JStr ''iac-solution''),
                               (''aws_region'', region)])])))))))"

definition parse_individual_outputs :: "json \<Rightarrow> json \<Rightarrow> json result" where
  "parse_individual_outputs tf_outputs iv =
     bind (extract_servers ''web_instance_public_ips'' ''webservers'' ''web-'' ''webserver''
             tf_outputs iv) (\<lambda>iv1.
     bind (extract_servers ''app_instance_private_ips'' ''appservers'' ''app-'' ''appserver''
             tf_outputs iv1) (\<lambda>iv2.
     bind (extract_database tf_outputs iv2) (\<lambda>iv3.
     add_common_vars tf_outputs iv3)))"

text \<open>\<^verbatim>\<open>if isinstance(inventory_data, str): inventory_data = json.loads(inventory_data)\<close>\<close>

definition decode_if_str :: "(string \<Rightarrow> json option) \<Rightarrow> json \<Rightarrow> json result" where
  "decode_if_str loads v =
     (case v of
        JStr s \<Rightarrow> (case loads s of None \<Rightarrow> Inl JSONDecodeError | Some d \<Rightarrow> Inr d)
      | _ \<Rightarrow> Inr v)"

definition add_global_vars :: "json \<Rightarrow> json \<Rightarrow> json result" where
  "add_global_vars all_entry iv =
     bind (py_contains all_entry ''vars'') (\<lambda>c.
     if c then
       bind (py_getitem all_entry ''vars'') (\<lambda>vs. py_setitem iv ''all'' (JObj [(''vars'', vs)]))
     else Inr iv)"

definition parse_ansible_inventory :: "(string \<Rightarrow> json option) \<Rightarrow> json \<Rightarrow> json \<Rightarrow> json result" where
  "parse_ansible_inventory loads tf_outputs iv =
     bind (py_contains tf_outputs ''ansible_inventory'') (\<lambda>present.
     if present then
       bind (py_getitem tf_outputs ''ansible_inventory'') (\<lambda>entry.
       bind (py_getitem entry ''value'') (\<lambda>v.
       bind (decode_if_str loads v) (\<lambda>inventory_data.
       bind (py_contains inventory_data ''all'') (\<lambda>has_all.
       if \<not> has_all then Inr iv else
       bind (py_getitem inventory_data ''all'') (\<lambda>all_entry.
       bind (py_contains all_entry ''children'') (\<lambda>has_children.
       if \<not> has_children then Inr iv else
       bind (py_getitem all_entry ''children'') (\<lambda>children.
       bind (process_group ''webservers'' webservers_vars children iv) (\<lambda>iv1.
       bind (process_group ''appservers'' appservers_vars children iv1) (\<lambda>iv2.
       bind (process_group ''databases'' databases_vars children iv2) (\<lambda>iv3.
       bind (py_getitem inventory_data ''all'') (\<lambda>all_entry2.
       add_global_vars all_entry2 iv3)))))))))))
     else parse_individual_outputs tf_outputs iv)"

subsection \<open>The two queries\<close>

definition empty_inventory :: json where
  "empty_inventory =
     JObj [(''all'', JObj [(''hosts'', JList []), (''vars'', JObj [])]),
           (''_meta'', JObj [(''hostvars'', JObj [])])]"

definition get_inventory :: "(string \<Rightarrow> json option) \<Rightarrow> run_outcome \<Rightarrow> json \<Rightarrow> json result" where
  "get_inventory loads r iv =
     bind (get_terraform_output loads r) (\<lambda>tf_outputs.
     if truthy tf_outputs then parse_ansible_inventory loads tf_outputs iv
     else Inr empty_inventory)"

definition get_host :: "(string \<Rightarrow> json option) \<Rightarrow> run_outcome \<Rightarrow> json \<Rightarrow> string \<Rightarrow> json result" where
  "get_host loads r iv hostname =
     bind (get_inventory loads r iv) (\<lambda>inventory.
     bind (py_get inventory ''_meta'' (JObj [])) (\<lambda>meta.
     bind (py_get meta ''hostvars'' (JObj [])) (\<lambda>hv.
     py_get hv hostname (JObj []))))"

definition mk_inventory :: "(string \<times> json) list \<Rightarrow> (string \<times> json) list \<Rightarrow> json" where
  "mk_inventory hv gs = JObj ((''_meta'', JObj [(''hostvars'', JObj hv)]) # gs)"

primrec assign :: "(string \<times> json) list \<Rightarrow> (string \<times> json) list \<Rightarrow> (string \<times> json) list" where
  "assign [] d = d"
| "assign (p # ps) d = assign ps (dict_set (fst p) (snd p) d)"

definition effect :: "(json \<Rightarrow> json result) \<Rightarrow> (string \<times> json) list \<Rightarrow> (string \<times> json) list \<Rightarrow> bool" where
  "effect B ha ga \<longleftrightarrow>
     (\<forall>hv gs. B (mk_inventory hv gs) = Inr (mk_inventory (assign ha hv) (assign ga gs)))"

definition raises :: "(json \<Rightarrow> json result) \<Rightarrow> py_error \<Rightarrow> bool" where
  "raises B e \<longleftrightarrow> (\<forall>hv gs. B (mk_inventory hv gs) = Inl e)"

definition behaves :: "(json \<Rightarrow> json result) \<Rightarrow>
    ((string \<times> json) list \<Rightarrow> (string \<times> json) list \<Rightarrow> bool) \<Rightarrow> bool" where
  "behaves B P \<longleftrightarrow> (\<exists>e. raises B e) \<or> (\<exists>ha ga. P ha ga \<and> effect B ha ga)"

definition group_entry :: "string list \<Rightarrow> json \<Rightarrow> json" where
  "group_entry hosts gvars = JObj [(''hosts'', JList (map JStr hosts)), (''vars'', gvars)]"

definition servers_entry :: "string \<Rightarrow> string \<Rightarrow> nat \<Rightarrow> json" where
  "servers_entry prefix stype n =
     JObj [(''hosts'', JList (map (\<lambda>i. JStr (prefix @ string_of_nat (i + 1))) [0..<n])),
           (''vars'', JObj [(''ansible_user'', JStr ''ubuntu''), (''server_type'', JStr stype)])]"

definition database_entry :: json where
  "database_entry = JObj [(''hosts'', JList [JStr ''database'']),
                          (''vars'', JObj [(''server_type'', JStr ''database'')])]"

fun at_path :: "json \<Rightarrow> string list \<Rightarrow> json option" where
  "at_path j [] = Some j"
| "at_path (JObj kvs) (k # ks) = (case map_of kvs k of None \<Rightarrow> None | Some v \<Rightarrow> at_path v ks)"
| "at_path j (k # ks) = None"

definition covered :: "(string \<times> json) list \<Rightarrow> (string \<times> json) list \<Rightarrow> bool" where
  "covered ha ga \<longleftrightarrow>
     (\<forall>p \<in> set ga. \<forall>hs. at_path (snd p) [''hosts''] = Some (JList hs) \<longrightarrow>
        (\<forall>h \<in> set hs. \<exists>n. h = JStr n \<and> n \<in> fst ` set ha))"

definition endpoint_value :: "(string \<times> json) list \<Rightarrow> json" where
  "endpoint_value s =
     (case at_path (JObj s) [''database_endpoint'', ''value''] of None \<Rightarrow> JNull | Some v \<Rightarrow> v)"

subsection \<open>Sample snapshots\<close>

text \<open>
  Two snapshots used to instantiate the theorems below, the documents the script prints for
  them, and a decoder that knows exactly the texts used here.
\<close>

definition sample_flat_outputs :: "(string \<times> json) list" where
  "sample_flat_outputs =
     [(''web_instance_public_ips'', JObj [(''value'', JList [JStr ''1.2.3.4'', JStr ''5.6.7.8''])]),
      (''database_endpoint'', JObj [(''value'', JStr ''db.example.com:5432'')]),
      (''infrastructure_info'', JObj [(''value'', JObj [(''environment'', JStr ''staging'')])])]"

definition sample_flat_inventory :: json where
  "sample_flat_inventory =
     JObj [(''_meta'', JObj [(''hostvars'', JObj
              [(''web-1'', JObj [(''ansible_host'', JStr ''1.2.3.4''),
                                 (''ansible_user'', JStr ''ubuntu'')]),
               (''web-2'', JObj [(''ansible_host'', JStr ''5.6.7.8''),
                                 (''ansible_user'', JStr ''ubuntu'')]),
               (''database'', JObj [(''ansible_host'', JStr ''db.example.com''),
                                    (''db_engine'', JStr ''postgres''),
                                    (''db_port'', JInt 5432)])])]),
           (''webservers'', JObj [(''hosts'', JList [JStr ''web-1'', JStr ''web-2'']),
              (''vars'', JObj [(''ansible_user'', JStr ''ubuntu''),
                               (''server_type'', JStr ''webserver'')])]),
           (''databases'', JObj [(''hosts'', JList [JStr ''database'']),
              (''vars'', JObj [(''server_type'', JStr ''database'')])]),
           (''all'', JObj [(''vars'', JObj [(''environment'', JStr ''staging''),
              (''project_name'', JStr ''iac-solution''),
              (''aws_region'', JStr ''us-west-2'')])])]"

definition sample_prebuilt_value :: json where
  "sample_prebuilt_value =
     JObj [(''all'', JObj
        [(''children'', JObj [(''webservers'', JObj [(''hosts'', JObj
            [(''w1'', JObj [(''ansible_host'', JStr ''10.0.0.5'')])])])]),
         (''vars'', JObj [(''env'', JStr ''prod'')])])]"

definition sample_prebuilt_outputs :: "(string \<times> json) list" where
  "sample_prebuilt_outputs =
     [(''ansible_inventory'', JObj [(''value'', JStr ''prebuilt document'')]),
      (''web_instance_public_ips'', JObj [(''value'', JList [JStr ''1.2.3.4''])])]"

definition sample_prebuilt_inventory :: json where
  "sample_prebuilt_inventory =
     JObj [(''_meta'', JObj [(''hostvars'', JObj
              [(''w1'', JObj [(''ansible_host'', JStr ''10.0.0.5'')])])]),
           (''webservers'', JObj [(''hosts'', JList [JStr ''w1'']),
              (''vars'', JObj [(''ansible_user'', JStr ''ubuntu''),
                               (''ansible_ssh_private_key_file'', JStr ''~/.ssh/id_rsa''),
                               (''server_type'', JStr ''webserver'')])]),
           (''all'', JObj [(''vars'', JObj [(''env'', JStr ''prod'')])])]"

definition sample_loads :: "string \<Rightarrow> json option" where
  "sample_loads =
     map_of [(''flat outputs'', JObj sample_flat_outputs),
             (''flat outputs '', JObj sample_flat_outputs),
             (''prebuilt outputs'', JObj sample_prebuilt_outputs),
             (''prebuilt document'', sample_prebuilt_value),
             (''no children'', JObj [(''all'', JObj [(''vars'', JObj [(''env'', JStr ''prod'')])])])]"

lemma bind_Inl [simp]: "bind (Inl e) f = Inl e"
  by (simp add: bind_def)

lemma bind_Inr [simp]: "bind (Inr x) f = f x"
  by (simp add: bind_def)

lemma bind_eq_Inr: "bind m f = Inr y \<longleftrightarrow> (\<exists>x. m = Inr x \<and> f x = Inr y)"
  by (cases m) simp_all

lemma map_of_dict_set: "map_of (dict_set k v d) = (map_of d)(k \<mapsto> v)"
  by (induction d) auto

lemma keys_dict_set:
  "map fst (dict_set k v d) = (if k \<in> set (map fst d) then map fst d else map fst d @ [k])"
  by (induction d) auto

lemma distinct_dict_set: "distinct (map fst d) \<Longrightarrow> distinct (map fst (dict_set k v d))"
  by (simp add: keys_dict_set)

lemma assign_append: "assign (xs @ ys) d = assign ys (assign xs d)"
  by (induction xs arbitrary: d) simp_all

lemma distinct_assign: "distinct (map fst d) \<Longrightarrow> distinct (map fst (assign xs d))"
  by (induction xs arbitrary: d) (simp_all add: distinct_dict_set)

lemma map_of_assign: "map_of (assign xs d) = map_of d ++ map_of (rev xs)"
  by (induction xs arbitrary: d) (simp_all add: map_of_dict_set map_add_upd_left)

lemma keyset_dict_set: "fst ` set (dict_set k v d) = insert k (fst ` set d)"
  by (induction d) auto

lemma keyset_assign: "fst ` set (assign xs d) = fst ` set d \<union> fst ` set xs"
  by (induction xs arbitrary: d) (auto simp: keyset_dict_set)

lemma keys_assign_same:
  "fst ` set xs \<subseteq> fst ` set d \<Longrightarrow> map fst (assign xs d) = map fst d"
proof (induction xs arbitrary: d)
  case Nil
  then show ?case by simp
next
  case (Cons x xs)
  from Cons.prems have "fst x \<in> fst ` set d" by simp
  then have k: "map fst (dict_set (fst x) (snd x) d) = map fst d"
    by (simp add: keys_dict_set)
  from Cons.prems have "fst ` set xs \<subseteq> fst ` set (dict_set (fst x) (snd x) d)"
    by (auto simp: keyset_dict_set)
  from Cons.IH[OF this] k show ?case by simp
qed

lemma alist_eqI:
  "distinct (map fst xs) \<Longrightarrow> map fst xs = map fst ys \<Longrightarrow> map_of xs = map_of ys \<Longrightarrow> xs = ys"
proof (induction xs arbitrary: ys)
  case Nil
  then show ?case by simp
next
  case (Cons x xs)
  then obtain y ys' where ys: "ys = y # ys'" by (cases ys) auto
  from Cons.prems ys have k: "fst x = fst y" and ks: "map fst xs = map fst ys'" by auto
  from Cons.prems(3) ys k have "snd x = snd y"
    by (metis fun_upd_same map_of.simps(2) option.inject)
  with k have xy: "x = y" by (simp add: prod_eq_iff)
  have "map_of xs = map_of ys'"
  proof
    fix a
    show "map_of xs a = map_of ys' a"
    proof (cases "a = fst x")
      case True
      with Cons.prems(1) have "a \<notin> set (map fst xs)" by simp
      then show ?thesis using ks by (metis map_of_eq_None_iff set_map)
    next
      case False
      with Cons.prems(3) ys xy show ?thesis by (metis fun_upd_other map_of.simps(2))
    qed
  qed
  with Cons.IH[of ys'] Cons.prems(1) ks xy ys show ?case by simp
qed

lemma assign_idem:
  assumes "distinct (map fst d)"
  shows "assign xs (assign xs d) = assign xs d"
proof (rule alist_eqI)
  show "distinct (map fst (assign xs (assign xs d)))"
    by (simp add: assms distinct_assign)
  have "fst ` set xs \<subseteq> fst ` set (assign xs d)"
    by (simp add: keyset_assign)
  then show "map fst (assign xs (assign xs d)) = map fst (assign xs d)"
    by (rule keys_assign_same)
  show "map_of (assign xs (assign xs d)) = map_of (assign xs d)"
    by (simp add: map_of_assign map_add_def fun_eq_iff split: option.splits)
qed

lemma set_hostvar_mk [simp]:
  "set_hostvar h v (mk_inventory hv gs) = Inr (mk_inventory (dict_set h v hv) gs)"
  by (simp add: set_hostvar_def mk_inventory_def)

lemma set_hostvars_mk [simp]:
  "set_hostvars its (mk_inventory hv gs) = Inr (mk_inventory (assign its hv) gs)"
  by (induction its arbitrary: hv) auto

lemma py_setitem_mk [simp]:
  "k \<noteq> ''_meta'' \<Longrightarrow> py_setitem (mk_inventory hv gs) k v = Inr (mk_inventory hv (dict_set k v gs))"
  by (auto simp add: mk_inventory_def)

lemma init_inventory_mk: "init_inventory = mk_inventory [] []"
  by (simp add: init_inventory_def mk_inventory_def)

lemma effect_bind:
  "effect B ha ga \<Longrightarrow> effect C ha' ga' \<Longrightarrow> effect (\<lambda>iv. bind (B iv) C) (ha @ ha') (ga @ ga')"
  by (simp add: effect_def assign_append)

lemma raises_bind1: "raises B e \<Longrightarrow> raises (\<lambda>iv. bind (B iv) C) e"
  by (simp add: raises_def)

lemma raises_bind2: "effect B ha ga \<Longrightarrow> raises C e \<Longrightarrow> raises (\<lambda>iv. bind (B iv) C) e"
  by (simp add: raises_def effect_def)

lemma behaves_raises: "raises B e \<Longrightarrow> behaves B P"
  by (auto simp: behaves_def)

lemma behaves_effect: "effect B ha ga \<Longrightarrow> P ha ga \<Longrightarrow> behaves B P"
  by (auto simp: behaves_def)

lemma behaves_mono: "behaves B P \<Longrightarrow> (\<And>ha ga. P ha ga \<Longrightarrow> Q ha ga) \<Longrightarrow> behaves B Q"
  by (auto simp: behaves_def)

lemma behaves_bind:
  assumes "behaves B P" and "behaves C Q"
    and "\<And>ha ga ha' ga'. P ha ga \<Longrightarrow> Q ha' ga' \<Longrightarrow> R (ha @ ha') (ga @ ga')"
  shows "behaves (\<lambda>iv. bind (B iv) C) R"
  using assms unfolding behaves_def
  by (metis effect_bind raises_bind1 raises_bind2)

lemma effect_skip: "effect (\<lambda>iv. Inr iv) [] []"
  by (simp add: effect_def)

lemma raises_const: "raises (\<lambda>iv. Inl e) e"
  by (simp add: raises_def)

lemma effect_setitem: "k \<noteq> ''_meta'' \<Longrightarrow> effect (\<lambda>iv. py_setitem iv k v) [] [(k, v)]"
  by (simp add: effect_def)

lemma effect_set_hostvars: "effect (set_hostvars its) its []"
  by (simp add: effect_def)

lemma effect_group:
  "k \<noteq> ''_meta'' \<Longrightarrow> effect (\<lambda>iv. bind (py_setitem iv k v) (set_hostvars its)) its [(k, v)]"
  by (simp add: effect_def)

lemma py_keys_items: "py_items x = Inr its \<Longrightarrow> py_keys x = Inr (map fst its)"
  by (simp add: py_keys_def)

lemma py_keys_raises: "py_items x = Inl e \<Longrightarrow> py_keys x = Inl e"
  by (simp add: py_keys_def)

lemma process_group_behaves:
  assumes "name \<noteq> ''_meta''"
  shows "behaves (process_group name gvars children)
           (\<lambda>ha ga. (ha = [] \<and> ga = []) \<or> ga = [(name, group_entry (map fst ha) gvars)])"
proof (cases "py_contains children name")
  case (Inl e)
  then show ?thesis
    by (intro behaves_raises[of _ e]) (simp add: raises_def process_group_def)
next
  case c1: (Inr c1)
  show ?thesis
  proof (cases c1)
    case False
    with c1 show ?thesis
      by (intro behaves_effect[of _ "[]" "[]"]) (simp_all add: effect_def process_group_def)
  next
    case True
    show ?thesis
    proof (cases "py_getitem children name")
      case (Inl e)
      with c1 True show ?thesis
        by (intro behaves_raises[of _ e]) (simp add: raises_def process_group_def)
    next
      case g: (Inr g)
      show ?thesis
      proof (cases "py_contains g ''hosts''")
        case (Inl e)
        with c1 True g show ?thesis
          by (intro behaves_raises[of _ e]) (simp add: raises_def process_group_def)
      next
        case c2: (Inr c2)
        show ?thesis
        proof (cases c2)
          case False
          with c1 True g c2 show ?thesis
            by (intro behaves_effect[of _ "[]" "[]"]) (simp_all add: effect_def process_group_def)
        next
          case c2t: True
          show ?thesis
          proof (cases "py_getitem g ''hosts''")
            case (Inl e)
            with c1 True g c2 c2t show ?thesis
              by (intro behaves_raises[of _ e]) (simp add: raises_def process_group_def)
          next
            case hs: (Inr hs)
            show ?thesis
            proof (cases "py_items hs")
              case (Inl e)
              with c1 True g c2 c2t hs show ?thesis
                by (intro behaves_raises[of _ e])
                   (simp add: raises_def process_group_def py_keys_raises)
            next
              case (Inr its)
              with c1 True g c2 c2t hs assms show ?thesis
                by (intro behaves_effect[of _ its "[(name, group_entry (map fst its) gvars)]"])
                   (simp_all add: effect_def process_group_def py_keys_items group_entry_def)
            qed
          qed
        qed
      qed
    qed
  qed
qed

lemma behaves_read:
  assumes "\<And>x. m = Inr x \<Longrightarrow> behaves (F x) P"
  shows "behaves (\<lambda>iv. bind m (\<lambda>x. F x iv)) P"
proof (cases m)
  case (Inl e)
  then show ?thesis by (intro behaves_raises[of _ e]) (simp add: raises_def)
next
  case (Inr x)
  with assms[of x] show ?thesis by simp
qed

lemma behaves_if:
  assumes "c \<Longrightarrow> behaves A P" and "\<not> c \<Longrightarrow> behaves B P"
  shows "behaves (\<lambda>iv. if c then A iv else B iv) P"
  using assms by (cases c) simp_all

lemma behaves_skip: "P [] [] \<Longrightarrow> behaves (\<lambda>iv. Inr iv) P"
  by (rule behaves_effect[OF effect_skip])

lemma py_len_iter: "py_len x = Inr n \<Longrightarrow> \<exists>xs. py_iter x = Inr xs \<and> length xs = n"
  by (cases x) auto

lemma extract_servers_behaves:
  assumes "gname \<noteq> ''_meta''"
  shows "behaves (extract_servers oname gname prefix stype tf)
           (\<lambda>ha ga. (ha = [] \<and> ga = []) \<or>
              (\<exists>xs. ha = numbered_hosts prefix xs \<and>
                    ga = [(gname, servers_entry prefix stype (length xs))]))"
  unfolding extract_servers_def
proof (intro behaves_read behaves_if behaves_skip)
  fix entry ips n
  assume "py_len ips = Inr n"
  then obtain xs where xs: "py_iter ips = Inr xs" "length xs = n"
    using py_len_iter by blast
  show "behaves (\<lambda>iv. bind (py_setitem iv gname
              (JObj [(''hosts'', JList (map (\<lambda>i. JStr (prefix @ string_of_nat (i + 1))) [0..<n])),
                     (''vars'', JObj [(''ansible_user'', JStr ''ubuntu''),
                                      (''server_type'', JStr stype)])])) (\<lambda>iv1.
       bind (py_iter ips) (\<lambda>xs.
       set_hostvars (numbered_hosts prefix xs) iv1)))
       (\<lambda>ha ga. (ha = [] \<and> ga = []) \<or>
              (\<exists>xs. ha = numbered_hosts prefix xs \<and>
                    ga = [(gname, servers_entry prefix stype (length xs))]))"
    using assms xs
    by (intro behaves_effect[of _ "numbered_hosts prefix xs"
                                 "[(gname, servers_entry prefix stype (length xs))]"])
       (auto simp: effect_def servers_entry_def)
qed simp

lemma effect_set_hostvar: "effect (set_hostvar h v) [(h, v)] []"
  by (simp add: effect_def)

lemma behaves_result:
  assumes "behaves B P" and "B (mk_inventory hv gs) = Inr iv"
  obtains ha ga where "P ha ga" and "effect B ha ga"
    and "iv = mk_inventory (assign ha hv) (assign ga gs)"
  using assms unfolding behaves_def raises_def effect_def by fastforce

lemma extract_database_behaves:
  "behaves (extract_database tf)
     (\<lambda>ha ga. (ha = [] \<and> ga = []) \<or>
        ((\<exists>v. ha = [(''database'', v)]) \<and> ga = [(''databases'', database_entry)]))"
  unfolding extract_database_def
  apply (intro behaves_read behaves_if behaves_skip)
   apply (rule behaves_bind[where P = "\<lambda>ha ga. ha = [] \<and> ga = [(''databases'', database_entry)]"
        and Q = "\<lambda>ha ga. (\<exists>v. ha = [(''database'', v)]) \<and> ga = []"])
     apply (rule behaves_effect[OF effect_setitem]; simp add: database_entry_def)
    apply (intro behaves_read behaves_effect[OF effect_set_hostvar]; simp)
   apply auto
  done

lemma add_common_vars_behaves:
  "behaves (add_common_vars tf) (\<lambda>ha ga. ha = [] \<and> (\<exists>x. ga = [(''all'', JObj [(''vars'', x)])]))"
  unfolding add_common_vars_def
  by (intro behaves_read behaves_effect[OF effect_setitem]) simp_all

lemma add_global_vars_behaves:
  "behaves (add_global_vars all_entry)
     (\<lambda>ha ga. ha = [] \<and> (ga = [] \<or> (\<exists>x. ga = [(''all'', JObj [(''vars'', x)])])))"
  unfolding add_global_vars_def
  by (intro behaves_read behaves_if behaves_skip behaves_effect[OF effect_setitem]) simp_all

lemma covered_Nil [simp]: "covered ha []"
  by (simp add: covered_def)

lemma covered_append:
  "covered ha ga \<Longrightarrow> covered ha' ga' \<Longrightarrow> covered (ha @ ha') (ga @ ga')"
  unfolding covered_def by fastforce

lemma numbered_hosts_zip:
  "numbered_hosts prefix xs =
     zip (map (\<lambda>i. prefix @ string_of_nat (i + 1)) [0..<length xs])
         (map (\<lambda>ip. JObj [(''ansible_host'', ip), (''ansible_user'', JStr ''ubuntu'')]) xs)"
  by (simp add: numbered_hosts_def enumerate_eq_zip zip_map_map)

lemma keys_numbered_hosts:
  "map fst (numbered_hosts prefix xs) = map (\<lambda>i. prefix @ string_of_nat (i + 1)) [0..<length xs]"
  by (simp add: numbered_hosts_zip)

lemma covered_group: "covered ha [(name, group_entry (map fst ha) gvars)]"
  by (auto simp: covered_def group_entry_def)

lemma covered_servers:
  "covered (numbered_hosts prefix xs) [(gname, servers_entry prefix stype (length xs))]"
proof -
  have "fst ` set (numbered_hosts prefix xs) =
        (\<lambda>i. prefix @ string_of_nat (i + 1)) ` {0..<length xs}"
    using keys_numbered_hosts[of prefix xs] by (metis set_map set_upt)
  then show ?thesis
    by (auto simp: covered_def servers_entry_def)
qed

lemma covered_database: "covered [(''database'', v)] [(''databases'', database_entry)]"
  by (auto simp: covered_def database_entry_def)

lemma covered_vars: "covered ha [(''all'', JObj [(''vars'', x)])]"
  by (auto simp: covered_def)

lemma parse_individual_outputs_behaves:
  "behaves (parse_individual_outputs tf) covered"
  unfolding parse_individual_outputs_def
  apply (rule behaves_bind[where P = covered and Q = covered])
    apply (rule behaves_mono[OF extract_servers_behaves]; auto simp: covered_servers)
   apply (rule behaves_bind[where P = covered and Q = covered])
     apply (rule behaves_mono[OF extract_servers_behaves]; auto simp: covered_servers)
    apply (rule behaves_bind[where P = covered and Q = covered])
      apply (rule behaves_mono[OF extract_database_behaves]; auto simp: covered_database)
     apply (rule behaves_mono[OF add_common_vars_behaves]; auto simp: covered_vars)
    apply (erule (1) covered_append)+
  done

lemma process_group_covered:
  "name \<noteq> ''_meta'' \<Longrightarrow> behaves (process_group name gvars children) covered"
  by (rule behaves_mono[OF process_group_behaves]) (auto simp: covered_group)

lemma preferred_groups_behaves:
  "behaves (\<lambda>iv. bind (process_group ''webservers'' webservers_vars children iv) (\<lambda>iv1.
       bind (process_group ''appservers'' appservers_vars children iv1) (\<lambda>iv2.
       bind (process_group ''databases'' databases_vars children iv2) (\<lambda>iv3.
       bind (py_getitem inventory_data ''all'') (\<lambda>all_entry2.
       add_global_vars all_entry2 iv3))))) covered"
  apply (rule behaves_bind[where P = covered and Q = covered])
    apply (rule process_group_covered, simp)
   apply (rule behaves_bind[where P = covered and Q = covered])
     apply (rule process_group_covered, simp)
    apply (rule behaves_bind[where P = covered and Q = covered])
      apply (rule process_group_covered, simp)
     apply (intro behaves_read)
     apply (rule behaves_mono[OF add_global_vars_behaves]; auto simp: covered_vars)
    apply (erule (1) covered_append)+
  done

lemma parse_ansible_inventory_behaves:
  "behaves (parse_ansible_inventory loads tf) covered"
  unfolding parse_ansible_inventory_def
  by (intro behaves_read behaves_if behaves_skip parse_individual_outputs_behaves
        preferred_groups_behaves) simp_all

lemma get_inventory_shape:
  assumes "get_inventory loads r init_inventory = Inr iv"
  shows "iv = empty_inventory \<or>
         (\<exists>ha ga. covered ha ga \<and> iv = mk_inventory (assign ha []) (assign ga []) \<and>
            (\<exists>tf. get_terraform_output loads r = Inr tf \<and>
                  effect (parse_ansible_inventory loads tf) ha ga))"
proof (cases "get_terraform_output loads r")
  case (Inl e)
  with assms show ?thesis by (simp add: get_inventory_def)
next
  case (Inr tf)
  show ?thesis
  proof (cases "truthy tf")
    case False
    with Inr assms show ?thesis by (simp add: get_inventory_def)
  next
    case True
    with Inr assms have "parse_ansible_inventory loads tf (mk_inventory [] []) = Inr iv"
      by (simp add: get_inventory_def init_inventory_mk)
    from behaves_result[OF parse_ansible_inventory_behaves this] Inr
    show ?thesis by metis
  qed
qed

lemma at_path_mk_group:
  "g \<noteq> ''_meta'' \<Longrightarrow> at_path (mk_inventory hv gs) (g # ks) =
     (case map_of gs g of None \<Rightarrow> None | Some v \<Rightarrow> at_path v ks)"
  by (simp add: mk_inventory_def)

lemma at_path_mk_hostvars:
  "at_path (mk_inventory hv gs) [''_meta'', ''hostvars''] = Some (JObj hv)"
  by (simp add: mk_inventory_def)

lemma at_path_mk_hostvar:
  "at_path (mk_inventory hv gs) (''_meta'' # ''hostvars'' # n # ks) =
     (case map_of hv n of None \<Rightarrow> None | Some v \<Rightarrow> at_path v ks)"
  by (simp add: mk_inventory_def)

lemma at_path_mk_meta_hosts:
  "at_path (mk_inventory hv gs) [''_meta'', ''hosts''] = None"
  by (simp add: mk_inventory_def)

lemma map_of_assign_Nil_mem: "map_of (assign xs []) k = Some v \<Longrightarrow> (k, v) \<in> set xs"
  by (simp add: map_of_assign) (metis map_of_SomeD set_rev)

lemma map_of_assign_key: "k \<in> fst ` set xs \<Longrightarrow> map_of (assign xs d) k \<noteq> None"
proof -
  assume "k \<in> fst ` set xs"
  then have "k \<in> fst ` set (assign xs d)" by (simp add: keyset_assign)
  then show ?thesis by (simp add: map_of_eq_None_iff)
qed

lemma digit_char_inj:
  assumes "d < 10" and "d' < 10" and "digit_char d = digit_char d'"
  shows "d = d'"
proof -
  have cases10: "\<And>k::nat. k < 10 \<Longrightarrow> k \<in> {0, 1, 2, 3, 4, 5, 6, 7, 8, 9}" by auto
  from cases10[OF assms(1)] cases10[OF assms(2)] assms(3) show ?thesis
    by (auto simp: digit_char_def)
qed

lemma string_of_nat_nonempty: "string_of_nat n \<noteq> []"
  by (subst string_of_nat.simps) simp

lemma string_of_nat_digit: "n < 10 \<Longrightarrow> string_of_nat n = [digit_char n]"
  by (subst string_of_nat.simps) simp

lemma string_of_nat_step:
  "\<not> n < 10 \<Longrightarrow> string_of_nat n = string_of_nat (n div 10) @ [digit_char (n mod 10)]"
  by (subst string_of_nat.simps) simp

lemma string_of_nat_inj: "string_of_nat m = string_of_nat n \<Longrightarrow> m = n"
proof (induction m arbitrary: n rule: string_of_nat.induct)
  case (1 m)
  show ?case
  proof (cases "m < 10")
    case m: True
    show ?thesis
    proof (cases "n < 10")
      case True
      with m "1.prems" show ?thesis
        by (simp add: string_of_nat_digit digit_char_inj)
    next
      case False
      with m "1.prems" string_of_nat_nonempty[of "n div 10"] show ?thesis
        by (simp add: string_of_nat_digit string_of_nat_step)
    qed
  next
    case m: False
    show ?thesis
    proof (cases "n < 10")
      case True
      with m "1.prems" show ?thesis
        by (simp add: string_of_nat_digit string_of_nat_step string_of_nat_nonempty)
    next
      case False
      with m "1.prems" have eq: "string_of_nat (m div 10) = string_of_nat (n div 10)"
        and d: "digit_char (m mod 10) = digit_char (n mod 10)"
        by (simp_all add: string_of_nat_step)
      from "1.IH"[OF m eq] have "m div 10 = n div 10" .
      moreover from d have "m mod 10 = n mod 10"
        by (intro digit_char_inj) simp_all
      ultimately show ?thesis by (metis div_mult_mod_eq)
    qed
  qed
qed

lemma distinct_numbered_names:
  "distinct (map (\<lambda>i. prefix @ string_of_nat (Suc i)) [0..<n])"
  by (auto simp: distinct_map inj_on_def dest: string_of_nat_inj)

lemma map_of_rev_distinct: "distinct (map fst xs) \<Longrightarrow> map_of (rev xs) = map_of xs"
proof -
  assume d: "distinct (map fst xs)"
  then have "distinct (map fst (rev xs))" by (simp only: rev_map[symmetric] distinct_rev)
  from map_of_inject_set[OF this d] show ?thesis by simp
qed

lemma map_of_numbered_hosts:
  assumes "i < length xs"
  shows "map_of (rev (numbered_hosts prefix xs)) (prefix @ string_of_nat (i + 1)) =
         Some (JObj [(''ansible_host'', xs ! i), (''ansible_user'', JStr ''ubuntu'')])"
proof -
  let ?ks = "map (\<lambda>i. prefix @ string_of_nat (i + 1)) [0..<length xs]"
  let ?vs = "map (\<lambda>ip. JObj [(''ansible_host'', ip), (''ansible_user'', JStr ''ubuntu'')]) xs"
  have d: "distinct (map fst (numbered_hosts prefix xs))"
    by (simp add: keys_numbered_hosts distinct_numbered_names)
  have "map_of (zip ?ks ?vs) (?ks ! i) = Some (?vs ! i)"
    using assms by (intro map_of_zip_nth) (simp_all add: distinct_numbered_names)
  with assms have "map_of (numbered_hosts prefix xs) (prefix @ string_of_nat (i + 1)) =
      Some (JObj [(''ansible_host'', xs ! i), (''ansible_user'', JStr ''ubuntu'')])"
    by (simp add: numbered_hosts_zip)
  with d show ?thesis by (simp add: map_of_rev_distinct)
qed

lemma map_of_assign_other: "k \<notin> fst ` set xs \<Longrightarrow> map_of (assign xs d) k = map_of d k"
  by (induction xs arbitrary: d) (auto simp: map_of_dict_set)

lemma map_of_assign_last:
  "distinct (map fst xs) \<Longrightarrow> map_of xs k = Some v \<Longrightarrow> map_of (assign xs d) k = Some v"
  by (simp add: map_of_assign map_of_rev_distinct map_add_def)

lemma at_path_value:
  assumes "at_path (JObj s) [oname, ''value''] = Some v"
  obtains e where "map_of s oname = Some (JObj e)" and "map_of e ''value'' = Some v"
proof -
  from assms obtain x where x: "map_of s oname = Some x" and v: "at_path x [''value''] = Some v"
    by (auto split: option.splits)
  from v obtain e where "x = JObj e" by (cases x) auto
  with x v that show ?thesis by (auto split: option.splits)
qed

lemma extract_servers_keys:
  assumes "gname \<noteq> ''_meta''"
  shows "behaves (extract_servers oname gname prefix stype tf)
           (\<lambda>ha ga. fst ` set ha \<subseteq> {k. \<exists>m. k = prefix @ string_of_nat m} \<and>
                     fst ` set ga \<subseteq> {gname})"
proof (rule behaves_mono[OF extract_servers_behaves[OF assms]])
  fix ha ga
  assume "ha = [] \<and> ga = [] \<or>
       (\<exists>xs. ha = numbered_hosts prefix xs \<and>
             ga = [(gname, servers_entry prefix stype (length xs))])"
  moreover have "fst ` set (numbered_hosts prefix xs) \<subseteq> {k. \<exists>m. k = prefix @ string_of_nat m}"
    for xs
  proof -
    have "fst ` set (numbered_hosts prefix xs) =
        (\<lambda>i. prefix @ string_of_nat (i + 1)) ` {0..<length xs}"
      using keys_numbered_hosts[of prefix xs] by (metis set_map set_upt)
    then show ?thesis by auto
  qed
  ultimately show "fst ` set ha \<subseteq> {k. \<exists>m. k = prefix @ string_of_nat m} \<and>
                     fst ` set ga \<subseteq> {gname}"
    by auto
qed

lemma extract_database_keys:
  "behaves (extract_database tf)
     (\<lambda>ha ga. fst ` set ha \<subseteq> {''database''} \<and> fst ` set ga \<subseteq> {''databases''})"
  by (rule behaves_mono[OF extract_database_behaves]) auto

lemma add_common_vars_keys:
  "behaves (add_common_vars tf) (\<lambda>ha ga. ha = [] \<and> fst ` set ga \<subseteq> {''all''})"
  by (rule behaves_mono[OF add_common_vars_behaves]) auto

lemma database_then_vars_keys:
  "behaves (\<lambda>iv2. bind (extract_database tf iv2) (add_common_vars tf))
     (\<lambda>ha ga. fst ` set ha \<subseteq> {''database''} \<and> fst ` set ga \<subseteq> {''databases'', ''all''})"
  by (rule behaves_bind[OF extract_database_keys add_common_vars_keys]) auto

lemma after_web_behaves:
  "behaves (\<lambda>iv1. bind (extract_servers ''app_instance_private_ips'' ''appservers'' ''app-''
                          ''appserver'' tf iv1) (\<lambda>iv2.
             bind (extract_database tf iv2) (add_common_vars tf)))
     (\<lambda>ha ga. (\<forall>m. ''web-'' @ string_of_nat m \<notin> fst ` set ha) \<and>
               ''webservers'' \<notin> fst ` set ga)"
  by (rule behaves_bind[OF extract_servers_keys database_then_vars_keys]) auto

lemma fallback_when_absent:
  "map_of s ''ansible_inventory'' = None \<Longrightarrow>
   parse_ansible_inventory loads (JObj s) iv = parse_individual_outputs (JObj s) iv"
  by (simp add: parse_ansible_inventory_def map_of_eq_None_iff)

lemma extract_servers_list:
  assumes "gname \<noteq> ''_meta''"
    and "map_of s oname = Some (JObj e)" and "map_of e ''value'' = Some (JList ips)"
  shows "extract_servers oname gname prefix stype (JObj s) (mk_inventory hv gs) =
         (if ips = [] then Inr (mk_inventory hv gs)
          else Inr (mk_inventory (assign (numbered_hosts prefix ips) hv)
                      (dict_set gname (servers_entry prefix stype (length ips)) gs)))"
  using assms by (simp add: extract_servers_def servers_entry_def)

lemma after_web_result:
  assumes "map_of s ''web_instance_public_ips'' = Some (JObj e)"
    and "map_of e ''value'' = Some (JList ips)"
    and "parse_individual_outputs (JObj s) (mk_inventory [] []) = Inr iv"
  obtains ha ga where "\<forall>m. ''web-'' @ string_of_nat m \<notin> fst ` set ha"
    and "''webservers'' \<notin> fst ` set ga"
    and "ips = [] \<Longrightarrow> iv = mk_inventory (assign ha []) (assign ga [])"
    and "ips \<noteq> [] \<Longrightarrow> iv = mk_inventory (assign ha (assign (numbered_hosts ''web-'' ips) []))
           (assign ga [(''webservers'', servers_entry ''web-'' ''webserver'' (length ips))])"
proof -
  let ?rest = "\<lambda>iv1. bind (extract_servers ''app_instance_private_ips'' ''appservers'' ''app-''
                          ''appserver'' (JObj s) iv1) (\<lambda>iv2.
             bind (extract_database (JObj s) iv2) (add_common_vars (JObj s)))"
  have w: "extract_servers ''web_instance_public_ips'' ''webservers'' ''web-'' ''webserver''
             (JObj s) (mk_inventory [] []) =
           (if ips = [] then Inr (mk_inventory [] [])
            else Inr (mk_inventory (assign (numbered_hosts ''web-'' ips) [])
                   [(''webservers'', servers_entry ''web-'' ''webserver'' (length ips))]))"
    using extract_servers_list[OF _ assms(1,2), of "''webservers''" "''web-''" "''webserver''" "[]" "[]"]
    by simp
  show ?thesis
  proof (cases "ips = []")
    case True
    with w assms(3) have "?rest (mk_inventory [] []) = Inr iv"
      by (simp only: parse_individual_outputs_def bind_Inr simp_thms if_True if_False)
    from behaves_result[OF after_web_behaves this] True that show ?thesis
      by (metis assign.simps(1))
  next
    case False
    with w assms(3) have "?rest (mk_inventory (assign (numbered_hosts ''web-'' ips) [])
                   [(''webservers'', servers_entry ''web-'' ''webserver'' (length ips))]) = Inr iv"
      by (simp only: parse_individual_outputs_def bind_Inr simp_thms if_True if_False)
    from behaves_result[OF after_web_behaves this] False that show ?thesis
      by metis
  qed
qed

lemma str_split_nonempty: "str_split sep s \<noteq> []"
  by (induction s) (auto split: list.splits)

lemma list_first_str_split:
  "list_first (str_split sep s) = Inr (takeWhile (\<lambda>c. c \<noteq> sep) s)"
proof (induction s)
  case Nil
  then show ?case by (simp add: list_first_def)
next
  case (Cons c cs)
  then show ?case
    using str_split_nonempty[of sep cs]
    by (cases "str_split sep cs") (auto simp: list_first_def)
qed

lemma get_chain2:
  assumes "py_get (JObj s) a (JObj []) = Inr x" and "py_get x b d = Inr y"
  shows "y = (case at_path (JObj s) [a, b] of None \<Rightarrow> d | Some v \<Rightarrow> v)"
  using assms by (cases x) (auto split: option.splits)

lemma get_chain3:
  assumes "py_get (JObj s) a (JObj []) = Inr x" and "py_get x b (JObj []) = Inr y"
    and "py_get y c d = Inr z"
  shows "z = (case at_path (JObj s) [a, b, c] of None \<Rightarrow> d | Some v \<Rightarrow> v)"
  using assms by (cases x; cases y) (auto split: option.splits)

lemma extract_database_skip:
  assumes "extract_database (JObj s) (mk_inventory hv gs) = Inr iv"
    and "\<not> truthy (endpoint_value s)"
  shows "iv = mk_inventory hv gs"
proof -
  from assms(1) obtain x y where x: "py_get (JObj s) ''database_endpoint'' (JObj []) = Inr x"
    and y: "py_get x ''value'' JNull = Inr y"
    and rest: "(if truthy y then Inl TypeError else Inr (mk_inventory hv gs)) = Inr iv \<or> truthy y"
    unfolding extract_database_def bind_eq_Inr by (auto split: if_splits)
  from get_chain2[OF x y] have "y = endpoint_value s" by (simp add: endpoint_value_def)
  with assms(2) rest show ?thesis by simp
qed

lemma py_split_Inr: "py_split y sep = Inr parts \<Longrightarrow> \<exists>ep. y = JStr ep \<and> parts = str_split sep ep"
  by (cases y) auto

lemma extract_database_run:
  assumes "extract_database (JObj s) (mk_inventory hv gs) = Inr iv"
    and "truthy (endpoint_value s)"
  shows "\<exists>ep. endpoint_value s = JStr ep \<and>
           iv = mk_inventory
                  (dict_set ''database''
                     (JObj [(''ansible_host'', JStr (takeWhile (\<lambda>c. c \<noteq> CHR '':'') ep)),
                            (''db_engine'',
                               case at_path (JObj s) [''database_engine'', ''value''] of
                                 None \<Rightarrow> JStr ''postgres'' | Some v \<Rightarrow> v),
                            (''db_port'',
                               case at_path (JObj s) [''database_port'', ''value''] of
                                 None \<Rightarrow> JInt 5432 | Some v \<Rightarrow> v)]) hv)
                  (dict_set ''databases'' database_entry gs)"
proof -
  from assms(1) obtain x y where x: "py_get (JObj s) ''database_endpoint'' (JObj []) = Inr x"
    and y: "py_get x ''value'' JNull = Inr y"
    unfolding extract_database_def bind_eq_Inr by blast
  from get_chain2[OF x y] have yv: "y = endpoint_value s" by (simp add: endpoint_value_def)
  with assms(2) have ty: "truthy y" by simp
  from assms(1) x y ty
  have "bind (py_split y (CHR '':'')) (\<lambda>parts.
        bind (list_first parts) (\<lambda>host.
        bind (py_get (JObj s) ''database_engine'' (JObj [])) (\<lambda>e1.
        bind (py_get e1 ''value'' (JStr ''postgres'')) (\<lambda>engine.
        bind (py_get (JObj s) ''database_port'' (JObj [])) (\<lambda>e2.
        bind (py_get e2 ''value'' (JInt 5432)) (\<lambda>port.
        set_hostvar ''database''
          (JObj [(''ansible_host'', JStr host), (''db_engine'', engine), (''db_port'', port)])
          (mk_inventory hv (dict_set ''databases'' database_entry gs)))))))) = Inr iv"
    by (simp add: extract_database_def database_entry_def)
  then obtain parts host e1 engine e2 port where
    parts: "py_split y (CHR '':'') = Inr parts" and host: "list_first parts = Inr host"
    and e1: "py_get (JObj s) ''database_engine'' (JObj []) = Inr e1"
    and engine: "py_get e1 ''value'' (JStr ''postgres'') = Inr engine"
    and e2: "py_get (JObj s) ''database_port'' (JObj []) = Inr e2"
    and port: "py_get e2 ''value'' (JInt 5432) = Inr port"
    and iv: "set_hostvar ''database''
          (JObj [(''ansible_host'', JStr host), (''db_engine'', engine), (''db_port'', port)])
          (mk_inventory hv (dict_set ''databases'' database_entry gs)) = Inr iv"
    unfolding bind_eq_Inr by blast
  from py_split_Inr[OF parts] obtain ep where ep: "y = JStr ep" "parts = str_split (CHR '':'') ep"
    by blast
  from host ep have h: "host = takeWhile (\<lambda>c. c \<noteq> CHR '':'') ep"
    by (simp add: list_first_str_split)
  note get_chain2[OF e1 engine] get_chain2[OF e2 port]
  with iv h ep yv show ?thesis by simp
qed


lemma web_then_app_keys:
  "behaves (\<lambda>iv. bind (extract_servers ''web_instance_public_ips'' ''webservers'' ''web-''
                          ''webserver'' tf iv)
             (extract_servers ''app_instance_private_ips'' ''appservers'' ''app-''
                          ''appserver'' tf))
     (\<lambda>ha ga. fst ` set ga \<subseteq> {''webservers'', ''appservers''})"
  by (rule behaves_bind[OF extract_servers_keys extract_servers_keys]) auto


lemma bind_assoc: "bind (bind m f) g = bind m (\<lambda>x. bind (f x) g)"
  by (cases m) simp_all

lemma fallback_stages:
  assumes "parse_individual_outputs tf (mk_inventory [] []) = Inr iv"
  obtains hv2 gs2 iv3 x where "map_of gs2 ''databases'' = None"
    and "extract_database tf (mk_inventory hv2 gs2) = Inr iv3"
    and "add_common_vars tf iv3 = Inr iv"
proof -
  let ?pre = "\<lambda>iv. bind (extract_servers ''web_instance_public_ips'' ''webservers'' ''web-''
                          ''webserver'' tf iv)
             (extract_servers ''app_instance_private_ips'' ''appservers'' ''app-''
                          ''appserver'' tf)"
  from assms have "bind (?pre (mk_inventory [] [])) (\<lambda>iv2.
      bind (extract_database tf iv2) (add_common_vars tf)) = Inr iv"
    by (simp only: parse_individual_outputs_def bind_assoc)
  then obtain iv2 iv3 where pre: "?pre (mk_inventory [] []) = Inr iv2"
    and db: "extract_database tf iv2 = Inr iv3" and cv: "add_common_vars tf iv3 = Inr iv"
    unfolding bind_eq_Inr by blast
  from behaves_result[OF web_then_app_keys pre]
  obtain ha ga where k: "fst ` set ga \<subseteq> {''webservers'', ''appservers''}"
    and iv2: "iv2 = mk_inventory (assign ha []) (assign ga [])"
    by blast
  from k have "''databases'' \<notin> fst ` set ga" by auto
  then have "map_of (assign ga []) ''databases'' = None"
    by (simp add: map_of_assign_other)
  with db cv iv2 that show ?thesis by blast
qed


lemma add_common_vars_run:
  assumes "add_common_vars (JObj s) (mk_inventory hv gs) = Inr iv"
  shows "iv = mk_inventory hv
           (dict_set ''all''
              (JObj [(''vars'',
                 JObj [(''environment'',
                          case at_path (JObj s) [''infrastructure_info'', ''value'', ''environment''] of
                            None \<Rightarrow> JStr ''unknown'' | Some v \<Rightarrow> v),
                       (''project_name'', JStr ''iac-solution''),
                       (''aws_region'',
                          case at_path (JObj s) [''infrastructure_info'', ''value'', ''region''] of
                            None \<Rightarrow> JStr ''us-west-2'' | Some v \<Rightarrow> v)])]) gs)"
proof -
  from assms obtain i1 v1 env i2 v2 region where
    i1: "py_get (JObj s) ''infrastructure_info'' (JObj []) = Inr i1"
    and v1: "py_get i1 ''value'' (JObj []) = Inr v1"
    and env: "py_get v1 ''environment'' (JStr ''unknown'') = Inr env"
    and i2: "py_get (JObj s) ''infrastructure_info'' (JObj []) = Inr i2"
    and v2: "py_get i2 ''value'' (JObj []) = Inr v2"
    and region: "py_get v2 ''region'' (JStr ''us-west-2'') = Inr region"
    and iv: "py_setitem (mk_inventory hv gs) ''all''
       (JObj [(''vars'', JObj [(''environment'', env),
                               (''project_name'', JStr ''iac-solution''),
                               (''aws_region'', region)])]) = Inr iv"
    unfolding add_common_vars_def bind_eq_Inr by blast
  from iv have "iv = mk_inventory hv (dict_set ''all''
       (JObj [(''vars'', JObj [(''environment'', env),
                               (''project_name'', JStr ''iac-solution''),
                               (''aws_region'', region)])]) gs)"
    by simp
  then show ?thesis
    by (simp only: get_chain3[OF i1 v1 env] get_chain3[OF i2 v2 region])
qed

lemma add_common_vars_frame:
  assumes "add_common_vars (JObj s) (mk_inventory hv gs) = Inr iv"
  shows "\<exists>x. iv = mk_inventory hv (dict_set ''all'' x gs)"
  by (rule exI, rule add_common_vars_run[OF assms])

lemma extract_database_shape:
  assumes "extract_database tf (mk_inventory hv gs) = Inr iv"
  shows "\<exists>hv' gs'. iv = mk_inventory hv' gs'"
  using behaves_result[OF extract_database_behaves assms] by metis

lemma process_group_shape:
  assumes "name \<noteq> ''_meta''" and "process_group name gvars children (mk_inventory hv gs) = Inr iv"
  shows "\<exists>hv' gs'. iv = mk_inventory hv' gs'"
  using behaves_result[OF process_group_covered[OF assms(1)] assms(2)] by metis

lemma truthy_snapshot: "map_of s k = Some v \<Longrightarrow> truthy (JObj s)"
  by (cases s) simp_all

lemma at_path_mk_set_group:
  "g \<noteq> ''_meta'' \<Longrightarrow> at_path (mk_inventory hv (dict_set g x gs)) [g] = Some x"
  by (simp add: at_path_mk_group map_of_dict_set)

lemma mem_keys: "map_of d k = Some v \<Longrightarrow> k \<in> fst ` set d"
  by (metis map_of_eq_None_iff option.distinct(1))

lemma preferred_groups_run:
  assumes "bind (process_group ''webservers'' webservers_vars children (mk_inventory [] [])) (\<lambda>iv1.
       bind (process_group ''appservers'' appservers_vars children iv1) (\<lambda>iv2.
       bind (process_group ''databases'' databases_vars children iv2) (\<lambda>iv3.
       bind (py_getitem inventory_data ''all'') (\<lambda>all_entry2.
       add_global_vars all_entry2 iv3)))) = Inr iv"
  obtains hv3 gs3 all_entry2 where "py_getitem inventory_data ''all'' = Inr all_entry2"
    and "add_global_vars all_entry2 (mk_inventory hv3 gs3) = Inr iv"
proof -
  from assms obtain iv1 iv2 iv3 all_entry2 where
    g1: "process_group ''webservers'' webservers_vars children (mk_inventory [] []) = Inr iv1"
    and g2: "process_group ''appservers'' appservers_vars children iv1 = Inr iv2"
    and g3: "process_group ''databases'' databases_vars children iv2 = Inr iv3"
    and a: "py_getitem inventory_data ''all'' = Inr all_entry2"
    and v: "add_global_vars all_entry2 iv3 = Inr iv"
    unfolding bind_eq_Inr by blast
  from process_group_shape[OF _ g1] obtain hv1 gs1 where iv1: "iv1 = mk_inventory hv1 gs1"
    by auto
  from process_group_shape[OF _ g2[unfolded iv1]] obtain hv2 gs2 where
    iv2: "iv2 = mk_inventory hv2 gs2"
    by auto
  from process_group_shape[OF _ g3[unfolded iv2]] obtain hv3 gs3 where
    iv3: "iv3 = mk_inventory hv3 gs3"
    by auto
  from a v[unfolded iv3] show ?thesis by (rule that)
qed

lemma sample_flat_acquired:
  "get_terraform_output sample_loads (Completed ''flat outputs'') = Inr (JObj sample_flat_outputs)"
  by (simp add: get_terraform_output_def sample_loads_def)

lemma sample_flat_parsed:
  "parse_ansible_inventory loads (JObj sample_flat_outputs) init_inventory =
     Inr sample_flat_inventory"
  by code_simp

lemma sample_flat_run:
  "get_inventory sample_loads (Completed ''flat outputs'') init_inventory =
     Inr sample_flat_inventory"
  by code_simp

lemma sample_prebuilt_parsed:
  "parse_ansible_inventory sample_loads (JObj sample_prebuilt_outputs) init_inventory =
     Inr sample_prebuilt_inventory"
  by code_simp

lemma string_of_nat_1: "string_of_nat (Suc 0) = ''1''"
  by (simp add: string_of_nat_digit digit_char_def)

lemma string_of_nat_2: "string_of_nat (Suc (Suc 0)) = ''2''"
  by (simp add: string_of_nat_digit digit_char_def)

section \<open>The claims\<close>

subsection \<open>C1: the empty snapshot\<close>

text \<open>
  Claim C1. When acquisition yields the empty mapping (the command failed, its output did
  not parse, or it printed an empty object), \<^verbatim>\<open>get_inventory\<close> returns exactly the document
  with \<^verbatim>\<open>all = {hosts: [], vars: {}}\<close> and \<^verbatim>\<open>_meta = {hostvars: {}}\<close>, whatever the
  inventory held before.
\<close>

theorem empty_snapshot_inventory:
  "get_terraform_output loads r = Inr (JObj []) \<Longrightarrow>
   get_inventory loads r iv =
     Inr (JObj [(''all'', JObj [(''hosts'', JList []), (''vars'', JObj [])]),
                (''_meta'', JObj [(''hostvars'', JObj [])])])"
  by (simp add: get_inventory_def empty_inventory_def)

text \<open>
  The command exits non-zero: the snapshot is the empty mapping and the fixed document comes
  back.
\<close>

theorem empty_snapshot_inventory_witness:
  "get_terraform_output (map_of []) CalledProcessError = Inr (JObj []) \<and>
   get_inventory (map_of []) CalledProcessError init_inventory =
     Inr (JObj [(''all'', JObj [(''hosts'', JList []), (''vars'', JObj [])]),
                (''_meta'', JObj [(''hostvars'', JObj [])])])"
proof -
  have h: "get_terraform_output (map_of []) CalledProcessError = Inr (JObj [])"
    by (simp add: get_terraform_output_def)
  show ?thesis
    using h empty_snapshot_inventory[OF h, of init_inventory] by simp
qed

subsection \<open>C2: listed hosts have host variables\<close>

text \<open>
  Claim C2. In every inventory that \<^verbatim>\<open>get_inventory\<close> produces on a fresh object, by the
  preferred path, the fallback path or the empty document, each element of the \<^verbatim>\<open>hosts\<close> list
  of a group \<open>g\<close> (in particular of \<^verbatim>\<open>webservers\<close>, \<^verbatim>\<open>appservers\<close> and \<^verbatim>\<open>databases\<close>) is a
  host name that is a key of \<^verbatim>\<open>_meta.hostvars\<close>.
\<close>

theorem listed_hosts_have_hostvars:
  assumes "get_inventory loads r init_inventory = Inr iv"
    and "at_path iv [g, ''hosts''] = Some (JList hs)"
    and "h \<in> set hs"
  shows "\<exists>n. h = JStr n \<and> at_path iv [''_meta'', ''hostvars'', n] \<noteq> None"
proof -
  from get_inventory_shape[OF assms(1)]
  consider "iv = empty_inventory"
    | ha ga where "covered ha ga" "iv = mk_inventory (assign ha []) (assign ga [])"
    by blast
  then show ?thesis
  proof cases
    case 1
    with assms(2,3) show ?thesis
      by (auto simp: empty_inventory_def split: if_splits)
  next
    case 2
    have g: "g \<noteq> ''_meta''"
      using assms(2) 2(2) by (auto simp: at_path_mk_meta_hosts)
    with assms(2) 2(2) obtain e where e: "map_of (assign ga []) g = Some e"
      and hosts: "at_path e [''hosts''] = Some (JList hs)"
      by (auto simp: at_path_mk_group split: option.splits)
    from e have "(g, e) \<in> set ga" by (rule map_of_assign_Nil_mem)
    with 2(1) hosts assms(3) obtain n where n: "h = JStr n" "n \<in> fst ` set ha"
      unfolding covered_def by fastforce
    from map_of_assign_key[OF n(2), of "[]"] 2(2) n(1) show ?thesis
      by (auto simp: at_path_mk_hostvar split: option.splits)
  qed
qed

text \<open>
  On the flat sample snapshot the group \<^verbatim>\<open>webservers\<close> lists \<^verbatim>\<open>web-2\<close>, which has host
  variables.
\<close>

theorem listed_hosts_have_hostvars_witness:
  "get_inventory sample_loads (Completed ''flat outputs'') init_inventory =
     Inr sample_flat_inventory \<and>
   at_path sample_flat_inventory [''webservers'', ''hosts''] =
     Some (JList [JStr ''web-1'', JStr ''web-2'']) \<and>
   JStr ''web-2'' \<in> set [JStr ''web-1'', JStr ''web-2''] \<and>
   (\<exists>n. JStr ''web-2'' = JStr n \<and>
        at_path sample_flat_inventory [''_meta'', ''hostvars'', n] \<noteq> None)"
proof -
  have hosts: "at_path sample_flat_inventory [''webservers'', ''hosts''] =
     Some (JList [JStr ''web-1'', JStr ''web-2''])"
    by (simp add: sample_flat_inventory_def)
  have mem: "JStr ''web-2'' \<in> set [JStr ''web-1'', JStr ''web-2'']"
    by simp
  from listed_hosts_have_hostvars[OF sample_flat_run hosts mem] sample_flat_run hosts mem
  show ?thesis by blast
qed

subsection \<open>C3: the host query\<close>

text \<open>
  Claim C3. Where \<^verbatim>\<open>get_inventory\<close> produces an inventory, its \<^verbatim>\<open>_meta.hostvars\<close> is a
  mapping and \<^verbatim>\<open>get_host\<close> returns, without raising, the entry of the host name in that
  mapping, or the empty mapping when the name is not a key of it.
\<close>

theorem get_host_lookup:
  assumes "get_inventory loads r init_inventory = Inr iv"
  shows "\<exists>hv. at_path iv [''_meta'', ''hostvars''] = Some (JObj hv) \<and>
           get_host loads r init_inventory hostname =
             Inr (case map_of hv hostname of None \<Rightarrow> JObj [] | Some v \<Rightarrow> v)"
proof -
  from get_inventory_shape[OF assms]
  consider "iv = empty_inventory" | hv gs where "iv = mk_inventory hv gs"
    by blast
  then show ?thesis
  proof cases
    case 1
    with assms show ?thesis
      by (simp add: get_host_def empty_inventory_def)
  next
    case 2
    with assms show ?thesis
      by (simp add: get_host_def mk_inventory_def)
  qed
qed

text \<open>
  On the flat sample snapshot the unknown host \<^verbatim>\<open>web-9\<close> gives the empty mapping and
  \<^verbatim>\<open>web-2\<close> gives its entry.
\<close>

theorem get_host_lookup_witness:
  "get_inventory sample_loads (Completed ''flat outputs'') init_inventory =
     Inr sample_flat_inventory \<and>
   get_host sample_loads (Completed ''flat outputs'') init_inventory ''web-9'' = Inr (JObj []) \<and>
   get_host sample_loads (Completed ''flat outputs'') init_inventory ''web-2'' =
     Inr (JObj [(''ansible_host'', JStr ''5.6.7.8''), (''ansible_user'', JStr ''ubuntu'')])"
  using get_host_lookup[OF sample_flat_run, of "''web-9''"]
    get_host_lookup[OF sample_flat_run, of "''web-2''"] sample_flat_run
  by (auto simp: sample_flat_inventory_def)

subsection \<open>C4: precedence of the pre-built entry\<close>

text \<open>
  Claim C4. When the snapshot has the \<^verbatim>\<open>ansible_inventory\<close> entry, the outcome of
  \<^verbatim>\<open>parse_ansible_inventory\<close> is the one of the snapshot that holds this entry alone: no other
  entry, flat fallback entries included, has any influence. When the entry is absent the
  outcome is the one of \<^verbatim>\<open>_parse_individual_outputs\<close>.
\<close>

theorem prebuilt_entry_takes_precedence:
  "(map_of s ''ansible_inventory'' = Some e \<longrightarrow>
      parse_ansible_inventory loads (JObj s) iv =
      parse_ansible_inventory loads (JObj [(''ansible_inventory'', e)]) iv) \<and>
   (map_of s ''ansible_inventory'' = None \<longrightarrow>
      parse_ansible_inventory loads (JObj s) iv = parse_individual_outputs (JObj s) iv)"
proof (intro conjI impI)
  assume e: "map_of s ''ansible_inventory'' = Some e"
  then have "''ansible_inventory'' \<in> fst ` set s"
    by (metis map_of_eq_None_iff option.distinct(1))
  with e show "parse_ansible_inventory loads (JObj s) iv =
      parse_ansible_inventory loads (JObj [(''ansible_inventory'', e)]) iv"
    by (simp add: parse_ansible_inventory_def)
next
  assume "map_of s ''ansible_inventory'' = None"
  then have "''ansible_inventory'' \<notin> fst ` set s"
    by (simp add: map_of_eq_None_iff)
  then show "parse_ansible_inventory loads (JObj s) iv = parse_individual_outputs (JObj s) iv"
    by (simp add: parse_ansible_inventory_def)
qed

text \<open>
  The pre-built sample snapshot also carries \<^verbatim>\<open>web_instance_public_ips\<close>, which is ignored;
  the flat sample snapshot has no pre-built entry and goes to the fallback.
\<close>

theorem prebuilt_entry_takes_precedence_witness:
  "map_of sample_prebuilt_outputs ''ansible_inventory'' =
     Some (JObj [(''value'', JStr ''prebuilt document'')]) \<and>
   parse_ansible_inventory sample_loads (JObj sample_prebuilt_outputs) init_inventory =
   parse_ansible_inventory sample_loads
     (JObj [(''ansible_inventory'', JObj [(''value'', JStr ''prebuilt document'')])])
     init_inventory \<and>
   map_of sample_flat_outputs ''ansible_inventory'' = None \<and>
   parse_ansible_inventory sample_loads (JObj sample_flat_outputs) init_inventory =
   parse_individual_outputs (JObj sample_flat_outputs) init_inventory"
proof -
  have h1: "map_of sample_prebuilt_outputs ''ansible_inventory'' =
     Some (JObj [(''value'', JStr ''prebuilt document'')])"
    by (simp add: sample_prebuilt_outputs_def)
  have h2: "map_of sample_flat_outputs ''ansible_inventory'' = None"
    by (simp add: sample_flat_outputs_def)
  from prebuilt_entry_takes_precedence[of sample_prebuilt_outputs
      "JObj [(''value'', JStr ''prebuilt document'')]" sample_loads init_inventory]
    prebuilt_entry_takes_precedence[of sample_flat_outputs
      "JObj [(''value'', JStr ''prebuilt document'')]" sample_loads init_inventory] h1 h2
  show ?thesis by blast
qed

subsection \<open>C5: web hosts of the fallback\<close>

text \<open>
  Claim C5 as stated fails: the snapshot below has no pre-built entry and a non-empty list of
  web addresses, but its \<^verbatim>\<open>database_endpoint.value\<close> is a list, on which \<^verbatim>\<open>split\<close> raises
  \<^verbatim>\<open>AttributeError\<close>; no inventory is produced.
\<close>

theorem web_hosts_from_public_ips_counterexample:
  "map_of [(''web_instance_public_ips'', JObj [(''value'', JList [JStr ''1.2.3.4''])]),
           (''database_endpoint'', JObj [(''value'', JList [JStr ''db-1:5432'', JStr ''db-2:5432''])])]
     ''ansible_inventory'' = None \<and>
   at_path (JObj [(''web_instance_public_ips'', JObj [(''value'', JList [JStr ''1.2.3.4''])]),
           (''database_endpoint'', JObj [(''value'', JList [JStr ''db-1:5432'', JStr ''db-2:5432''])])])
     [''web_instance_public_ips'', ''value''] = Some (JList [JStr ''1.2.3.4'']) \<and>
   parse_ansible_inventory sample_loads
     (JObj [(''web_instance_public_ips'', JObj [(''value'', JList [JStr ''1.2.3.4''])]),
           (''database_endpoint'', JObj [(''value'', JList [JStr ''db-1:5432'', JStr ''db-2:5432''])])])
     init_inventory = Inl AttributeError"
  by code_simp

text \<open>
  Claim C5, amended. For a snapshot without the pre-built entry whose
  \<^verbatim>\<open>web_instance_public_ips.value\<close> is a list of \<open>n\<close> addresses, and on which the fallback
  completes without raising: if the list is not empty, \<^verbatim>\<open>webservers.hosts\<close> is the list
  \<^verbatim>\<open>web-1\<close>, ..., \<^verbatim>\<open>web-n\<close> in this order and the host variables of \<^verbatim>\<open>web-(i+1)\<close> map
  \<^verbatim>\<open>ansible_host\<close> to the address at index \<open>i\<close>; if the list is empty there is no
  \<^verbatim>\<open>webservers\<close> group.
\<close>

theorem web_hosts_from_public_ips:
  assumes "map_of s ''ansible_inventory'' = None"
    and "at_path (JObj s) [''web_instance_public_ips'', ''value''] = Some (JList ips)"
    and "parse_ansible_inventory loads (JObj s) init_inventory = Inr iv"
  shows "(ips \<noteq> [] \<longrightarrow>
            at_path iv [''webservers'', ''hosts''] =
              Some (JList (map (\<lambda>i. JStr (''web-'' @ string_of_nat (i + 1))) [0..<length ips])) \<and>
            (\<forall>i<length ips.
               at_path iv [''_meta'', ''hostvars'', ''web-'' @ string_of_nat (i + 1), ''ansible_host'']
                 = Some (ips ! i))) \<and>
         (ips = [] \<longrightarrow> at_path iv [''webservers''] = None)"
proof -
  from assms(2) obtain e where e: "map_of s ''web_instance_public_ips'' = Some (JObj e)"
      "map_of e ''value'' = Some (JList ips)"
    by (rule at_path_value)
  from assms(1,3) have "parse_individual_outputs (JObj s) (mk_inventory [] []) = Inr iv"
    by (simp add: fallback_when_absent init_inventory_mk)
  from after_web_result[OF e this]
  obtain ha ga where nw: "\<forall>m. ''web-'' @ string_of_nat m \<notin> fst ` set ha"
    and ng: "''webservers'' \<notin> fst ` set ga"
    and iv0: "ips = [] \<Longrightarrow> iv = mk_inventory (assign ha []) (assign ga [])"
    and iv1: "ips \<noteq> [] \<Longrightarrow>
           iv = mk_inventory (assign ha (assign (numbered_hosts ''web-'' ips) []))
           (assign ga [(''webservers'', servers_entry ''web-'' ''webserver'' (length ips))])"
    by blast
  have grp: "map_of (assign ga d) ''webservers'' = map_of d ''webservers''" for d
    using ng by (rule map_of_assign_other)
  have hosts: "ips \<noteq> [] \<Longrightarrow> at_path iv [''webservers'', ''hosts''] =
        Some (JList (map (\<lambda>i. JStr (''web-'' @ string_of_nat (i + 1))) [0..<length ips]))"
  proof -
    assume "ips \<noteq> []"
    from iv1[OF this] have "at_path iv [''webservers'', ''hosts''] =
        at_path (servers_entry ''web-'' ''webserver'' (length ips)) [''hosts'']"
      by (simp add: at_path_mk_group grp)
    then show ?thesis by (simp add: servers_entry_def)
  qed
  have host: "at_path iv [''_meta'', ''hostvars'', ''web-'' @ string_of_nat (i + 1),
        ''ansible_host''] = Some (ips ! i)" if ne: "ips \<noteq> []" and i: "i < length ips" for i
  proof -
    let ?k = "''web-'' @ string_of_nat (i + 1)"
    from nw have "?k \<notin> fst ` set ha" by blast
    then have "map_of (assign ha (assign (numbered_hosts ''web-'' ips) [])) ?k =
               map_of (assign (numbered_hosts ''web-'' ips) []) ?k"
      by (rule map_of_assign_other)
    also have "\<dots> = map_of (rev (numbered_hosts ''web-'' ips)) ?k"
      by (simp only: map_of_assign map_of.simps empty_map_add)
    also have "\<dots> = Some (JObj [(''ansible_host'', ips ! i), (''ansible_user'', JStr ''ubuntu'')])"
      by (rule map_of_numbered_hosts[OF i])
    finally have "at_path iv [''_meta'', ''hostvars'', ?k, ''ansible_host''] =
        at_path (JObj [(''ansible_host'', ips ! i), (''ansible_user'', JStr ''ubuntu'')])
          [''ansible_host'']"
      by (simp only: iv1[OF ne] at_path_mk_hostvar option.simps)
    then show ?thesis by simp
  qed
  have none: "ips = [] \<Longrightarrow> at_path iv [''webservers''] = None"
  proof -
    assume "ips = []"
    from iv0[OF this] show ?thesis by (simp add: at_path_mk_group grp)
  qed
  from hosts host none show ?thesis by blast
qed

text \<open>
  The example of the specification: two addresses give \<^verbatim>\<open>web-1\<close> and \<^verbatim>\<open>web-2\<close>, and
  \<^verbatim>\<open>web-1\<close> has the first address.
\<close>

theorem web_hosts_from_public_ips_witness:
  "map_of sample_flat_outputs ''ansible_inventory'' = None \<and>
   at_path (JObj sample_flat_outputs) [''web_instance_public_ips'', ''value''] =
     Some (JList [JStr ''1.2.3.4'', JStr ''5.6.7.8'']) \<and>
   parse_ansible_inventory sample_loads (JObj sample_flat_outputs) init_inventory =
     Inr sample_flat_inventory \<and>
   at_path sample_flat_inventory [''webservers'', ''hosts''] =
     Some (JList [JStr ''web-1'', JStr ''web-2'']) \<and>
   at_path sample_flat_inventory [''_meta'', ''hostvars'', ''web-1'', ''ansible_host''] =
     Some (JStr ''1.2.3.4'')"
proof -
  have h1: "map_of sample_flat_outputs ''ansible_inventory'' = None"
    by (simp add: sample_flat_outputs_def)
  have h2: "at_path (JObj sample_flat_outputs) [''web_instance_public_ips'', ''value''] =
     Some (JList [JStr ''1.2.3.4'', JStr ''5.6.7.8''])"
    by (simp add: sample_flat_outputs_def)
  note c = web_hosts_from_public_ips[OF h1 h2 sample_flat_parsed[of sample_loads]]
  from c have hosts: "at_path sample_flat_inventory [''webservers'', ''hosts''] =
     Some (JList [JStr ''web-1'', JStr ''web-2''])"
    by (simp add: string_of_nat_1 string_of_nat_2 upt_rec)
  from c have "at_path sample_flat_inventory
      [''_meta'', ''hostvars'', ''web-'' @ string_of_nat (0 + 1), ''ansible_host''] =
     Some ([JStr ''1.2.3.4'', JStr ''5.6.7.8''] ! 0)"
    by simp
  then have host: "at_path sample_flat_inventory
      [''_meta'', ''hostvars'', ''web-1'', ''ansible_host''] = Some (JStr ''1.2.3.4'')"
    by (simp add: string_of_nat_1)
  from h1 h2 sample_flat_parsed[of sample_loads] hosts host show ?thesis by blast
qed

subsection \<open>C6: the database host of the fallback\<close>

text \<open>
  Claim C6 as stated fails twice. With a non-empty endpoint string and
  \<^verbatim>\<open>web_instance_public_ips.value = 2\<close>, \<^verbatim>\<open>len\<close> raises \<^verbatim>\<open>TypeError\<close> before the database
  block is reached. With the endpoint present but empty, the run completes and there is no
  \<^verbatim>\<open>databases\<close> group.
\<close>

theorem database_host_from_endpoint_counterexample:
  "parse_ansible_inventory sample_loads
     (JObj [(''web_instance_public_ips'', JObj [(''value'', JInt 2)]),
            (''database_endpoint'', JObj [(''value'', JStr ''db.example.com:5432'')])])
     init_inventory = Inl TypeError \<and>
   parse_ansible_inventory sample_loads
     (JObj [(''database_endpoint'', JObj [(''value'', JStr '''')])])
     init_inventory =
   Inr (JObj [(''_meta'', JObj [(''hostvars'', JObj [])]),
              (''all'', JObj [(''vars'', JObj [(''environment'', JStr ''unknown''),
                 (''project_name'', JStr ''iac-solution''),
                 (''aws_region'', JStr ''us-west-2'')])])])"
  by code_simp

text \<open>
  Claim C6, amended. For a snapshot without the pre-built entry on which the fallback
  completes without raising: the \<^verbatim>\<open>databases\<close> group exists if and only if
  \<^verbatim>\<open>database_endpoint.value\<close> is present and true in the sense of Python (for a string: not
  empty); and when that value is a non-empty string, the group is
  \<^verbatim>\<open>{hosts: [database], vars: {server_type: database}}\<close> and the host variables of
  \<^verbatim>\<open>database\<close> are \<^verbatim>\<open>ansible_host\<close>, the endpoint up to its first colon, \<^verbatim>\<open>db_engine\<close>, the
  value of \<^verbatim>\<open>database_engine\<close> or \<^verbatim>\<open>postgres\<close> when absent, and \<^verbatim>\<open>db_port\<close>, the value of
  \<^verbatim>\<open>database_port\<close> or 5432 when absent.
\<close>

theorem database_host_from_endpoint:
  assumes "map_of s ''ansible_inventory'' = None"
    and "parse_ansible_inventory loads (JObj s) init_inventory = Inr iv"
  shows "(at_path iv [''databases''] \<noteq> None \<longleftrightarrow>
            (\<exists>v. at_path (JObj s) [''database_endpoint'', ''value''] = Some v \<and> truthy v)) \<and>
         (\<forall>ep. at_path (JObj s) [''database_endpoint'', ''value''] = Some (JStr ep) \<and> ep \<noteq> [] \<longrightarrow>
            at_path iv [''databases''] =
              Some (JObj [(''hosts'', JList [JStr ''database'']),
                          (''vars'', JObj [(''server_type'', JStr ''database'')])]) \<and>
            at_path iv [''_meta'', ''hostvars'', ''database''] =
              Some (JObj [(''ansible_host'', JStr (takeWhile (\<lambda>c. c \<noteq> CHR '':'') ep)),
                          (''db_engine'',
                             case at_path (JObj s) [''database_engine'', ''value''] of
                               None \<Rightarrow> JStr ''postgres'' | Some v \<Rightarrow> v),
                          (''db_port'',
                             case at_path (JObj s) [''database_port'', ''value''] of
                               None \<Rightarrow> JInt 5432 | Some v \<Rightarrow> v)]))"
proof -
  define V where "V = (\<lambda>ep. JObj [(''ansible_host'', JStr (takeWhile (\<lambda>c. c \<noteq> CHR '':'') ep)),
                          (''db_engine'',
                             case at_path (JObj s) [''database_engine'', ''value''] of
                               None \<Rightarrow> JStr ''postgres'' | Some v \<Rightarrow> v),
                          (''db_port'',
                             case at_path (JObj s) [''database_port'', ''value''] of
                               None \<Rightarrow> JInt 5432 | Some v \<Rightarrow> v)])"
  from assms have "parse_individual_outputs (JObj s) (mk_inventory [] []) = Inr iv"
    by (simp add: fallback_when_absent init_inventory_mk)
  from fallback_stages[OF this]
  obtain hv2 gs2 iv3 where nodb: "map_of gs2 ''databases'' = None"
    and db: "extract_database (JObj s) (mk_inventory hv2 gs2) = Inr iv3"
    and cv: "add_common_vars (JObj s) iv3 = Inr iv"
    by blast
  have tv: "truthy (endpoint_value s) \<longleftrightarrow>
      (\<exists>v. at_path (JObj s) [''database_endpoint'', ''value''] = Some v \<and> truthy v)"
    by (cases "at_path (JObj s) [''database_endpoint'', ''value'']")
       (simp_all add: endpoint_value_def)
  have goal: "(at_path iv [''databases''] \<noteq> None \<longleftrightarrow>
            (\<exists>v. at_path (JObj s) [''database_endpoint'', ''value''] = Some v \<and> truthy v)) \<and>
         (\<forall>ep. at_path (JObj s) [''database_endpoint'', ''value''] = Some (JStr ep) \<and> ep \<noteq> [] \<longrightarrow>
            at_path iv [''databases''] = Some database_entry \<and>
            at_path iv [''_meta'', ''hostvars'', ''database''] = Some (V ep))"
  proof (cases "truthy (endpoint_value s)")
    case False
    from extract_database_skip[OF db False] have iv3: "iv3 = mk_inventory hv2 gs2" .
    from add_common_vars_frame[OF cv[unfolded iv3]]
    obtain x where "iv = mk_inventory hv2 (dict_set ''all'' x gs2)" ..
    with nodb have none: "at_path iv [''databases''] = None"
      by (simp add: at_path_mk_group map_of_dict_set)
    have "\<not> (at_path (JObj s) [''database_endpoint'', ''value''] = Some (JStr ep) \<and> ep \<noteq> [])"
      for ep
      using False tv by auto
    with none False tv show ?thesis by blast
  next
    case True
    from extract_database_run[OF db True] obtain ep0 where ep0: "endpoint_value s = JStr ep0"
      and iv3: "iv3 = mk_inventory (dict_set ''database'' (V ep0) hv2)
                  (dict_set ''databases'' database_entry gs2)"
      unfolding V_def by blast
    from add_common_vars_frame[OF cv[unfolded iv3]]
    obtain x where iv: "iv = mk_inventory (dict_set ''database'' (V ep0) hv2)
                  (dict_set ''all'' x (dict_set ''databases'' database_entry gs2))" ..
    have grp: "at_path iv [''databases''] = Some database_entry"
      unfolding iv by (simp add: at_path_mk_group map_of_dict_set)
    have host: "at_path iv [''_meta'', ''hostvars'', ''database''] = Some (V ep0)"
      unfolding iv by (simp add: at_path_mk_hostvar map_of_dict_set)
    have same: "ep = ep0"
      if "at_path (JObj s) [''database_endpoint'', ''value''] = Some (JStr ep)" for ep
      using that ep0 by (simp add: endpoint_value_def)
    from grp have g1: "at_path iv [''databases''] \<noteq> None" by simp
    from host same have "at_path iv [''_meta'', ''hostvars'', ''database''] = Some (V ep)"
      if "at_path (JObj s) [''database_endpoint'', ''value''] = Some (JStr ep)" for ep
      using that by simp
    with grp g1 True tv show ?thesis by blast
  qed
  then show ?thesis
    unfolding V_def database_entry_def .
qed

text \<open>
  The example of the specification: \<^verbatim>\<open>db.example.com:5432\<close> without engine and port
  entries.
\<close>

theorem database_host_from_endpoint_witness:
  "map_of sample_flat_outputs ''ansible_inventory'' = None \<and>
   parse_ansible_inventory sample_loads (JObj sample_flat_outputs) init_inventory =
     Inr sample_flat_inventory \<and>
   at_path (JObj sample_flat_outputs) [''database_endpoint'', ''value''] =
     Some (JStr ''db.example.com:5432'') \<and>
   at_path sample_flat_inventory [''databases''] =
     Some (JObj [(''hosts'', JList [JStr ''database'']),
                 (''vars'', JObj [(''server_type'', JStr ''database'')])]) \<and>
   at_path sample_flat_inventory [''_meta'', ''hostvars'', ''database''] =
     Some (JObj [(''ansible_host'', JStr ''db.example.com''),
                 (''db_engine'', JStr ''postgres''), (''db_port'', JInt 5432)])"
proof -
  have h1: "map_of sample_flat_outputs ''ansible_inventory'' = None"
    by (simp add: sample_flat_outputs_def)
  have h2: "at_path (JObj sample_flat_outputs) [''database_endpoint'', ''value''] =
     Some (JStr ''db.example.com:5432'')"
    by (simp add: sample_flat_outputs_def)
  have h3: "at_path (JObj sample_flat_outputs) [''database_engine'', ''value''] = None"
    by (simp add: sample_flat_outputs_def)
  have h4: "at_path (JObj sample_flat_outputs) [''database_port'', ''value''] = None"
    by (simp add: sample_flat_outputs_def)
  note c = database_host_from_endpoint[OF h1 sample_flat_parsed[of sample_loads]]
  from c h2 have "at_path sample_flat_inventory [''databases''] =
     Some (JObj [(''hosts'', JList [JStr ''database'']),
                 (''vars'', JObj [(''server_type'', JStr ''database'')])]) \<and>
   at_path sample_flat_inventory [''_meta'', ''hostvars'', ''database''] =
     Some (JObj [(''ansible_host'', JStr (takeWhile (\<lambda>c. c \<noteq> CHR '':'') ''db.example.com:5432'')),
                 (''db_engine'',
                    case at_path (JObj sample_flat_outputs) [''database_engine'', ''value''] of
                      None \<Rightarrow> JStr ''postgres'' | Some v \<Rightarrow> v),
                 (''db_port'',
                    case at_path (JObj sample_flat_outputs) [''database_port'', ''value''] of
                      None \<Rightarrow> JInt 5432 | Some v \<Rightarrow> v)])"
    by blast
  with h3 h4 have "at_path sample_flat_inventory [''databases''] =
     Some (JObj [(''hosts'', JList [JStr ''database'']),
                 (''vars'', JObj [(''server_type'', JStr ''database'')])]) \<and>
   at_path sample_flat_inventory [''_meta'', ''hostvars'', ''database''] =
     Some (JObj [(''ansible_host'', JStr ''db.example.com''),
                 (''db_engine'', JStr ''postgres''), (''db_port'', JInt 5432)])"
    by simp
  with h1 h2 sample_flat_parsed[of sample_loads] show ?thesis by blast
qed

subsection \<open>C7: global variables of the preferred path\<close>

text \<open>
  Claim C7 as stated fails twice. When \<^verbatim>\<open>all\<close> carries \<^verbatim>\<open>vars\<close> but no \<^verbatim>\<open>children\<close>, the
  copy is skipped with the groups and the inventory stays as created. When
  \<^verbatim>\<open>children.webservers.hosts\<close> is a list, \<^verbatim>\<open>keys\<close> raises \<^verbatim>\<open>AttributeError\<close>.
\<close>

theorem global_vars_copied_counterexample:
  "parse_ansible_inventory sample_loads
     (JObj [(''ansible_inventory'', JObj [(''value'',
        JObj [(''all'', JObj [(''vars'', JObj [(''env'', JStr ''prod'')])])])])])
     init_inventory = Inr (JObj [(''_meta'', JObj [(''hostvars'', JObj [])])]) \<and>
   parse_ansible_inventory sample_loads
     (JObj [(''ansible_inventory'', JObj [(''value'',
        JObj [(''all'', JObj
          [(''children'', JObj [(''webservers'', JObj [(''hosts'', JList [JStr ''w1''])])]),
           (''vars'', JObj [(''env'', JStr ''prod'')])])])])])
     init_inventory = Inl AttributeError"
  by code_simp

text \<open>
  Claim C7, amended. For a snapshot whose pre-built entry has a (decoded) value that is a
  mapping whose \<^verbatim>\<open>all\<close> entry is a mapping with both a \<^verbatim>\<open>children\<close> key and a \<^verbatim>\<open>vars\<close> key,
  and on which the preferred path completes without raising, the produced \<^verbatim>\<open>all\<close> group is
  \<^verbatim>\<open>{vars: v}\<close> for the value \<open>v\<close> of that \<^verbatim>\<open>vars\<close> key.
\<close>

theorem global_vars_copied:
  assumes "map_of s ''ansible_inventory'' = Some (JObj e)"
    and "map_of e ''value'' = Some v"
    and "decode_if_str loads v = Inr (JObj d)"
    and "map_of d ''all'' = Some (JObj a)"
    and "map_of a ''children'' = Some children"
    and "map_of a ''vars'' = Some vs"
    and "parse_ansible_inventory loads (JObj s) init_inventory = Inr iv"
  shows "at_path iv [''all''] = Some (JObj [(''vars'', vs)])"
proof -
  note keys = mem_keys[OF assms(1)] mem_keys[OF assms(4)] mem_keys[OF assms(5)] mem_keys[OF assms(6)]
  from assms(7) have "bind (process_group ''webservers'' webservers_vars children (mk_inventory [] [])) (\<lambda>iv1.
       bind (process_group ''appservers'' appservers_vars children iv1) (\<lambda>iv2.
       bind (process_group ''databases'' databases_vars children iv2) (\<lambda>iv3.
       bind (py_getitem (JObj d) ''all'') (\<lambda>all_entry2.
       add_global_vars all_entry2 iv3)))) = Inr iv"
    using assms(1-6) keys
    by (simp add: parse_ansible_inventory_def init_inventory_mk)
  from preferred_groups_run[OF this] obtain hv3 gs3 all_entry2 where
    a: "py_getitem (JObj d) ''all'' = Inr all_entry2"
    and g: "add_global_vars all_entry2 (mk_inventory hv3 gs3) = Inr iv"
    by blast
  from a assms(4) have "all_entry2 = JObj a" by simp
  with g assms(6) keys(4) have "iv = mk_inventory hv3 (dict_set ''all'' (JObj [(''vars'', vs)]) gs3)"
    by (simp add: add_global_vars_def)
  then show ?thesis by (simp add: at_path_mk_set_group)
qed

text \<open>
  The pre-built sample snapshot, whose value is a JSON text that is decoded first.
\<close>

theorem global_vars_copied_witness:
  "map_of sample_prebuilt_outputs ''ansible_inventory'' =
     Some (JObj [(''value'', JStr ''prebuilt document'')]) \<and>
   decode_if_str sample_loads (JStr ''prebuilt document'') = Inr sample_prebuilt_value \<and>
   parse_ansible_inventory sample_loads (JObj sample_prebuilt_outputs) init_inventory =
     Inr sample_prebuilt_inventory \<and>
   at_path sample_prebuilt_inventory [''all''] =
     Some (JObj [(''vars'', JObj [(''env'', JStr ''prod'')])])"
proof -
  have h1: "map_of sample_prebuilt_outputs ''ansible_inventory'' =
     Some (JObj [(''value'', JStr ''prebuilt document'')])"
    by (simp add: sample_prebuilt_outputs_def)
  have h2: "map_of [(''value'', JStr ''prebuilt document'')] ''value'' =
     Some (JStr ''prebuilt document'')"
    by simp
  have d: "decode_if_str sample_loads (JStr ''prebuilt document'') = Inr sample_prebuilt_value"
    by (simp add: decode_if_str_def sample_loads_def)
  have h3: "decode_if_str sample_loads (JStr ''prebuilt document'') =
      Inr (JObj [(''all'', JObj
        [(''children'', JObj [(''webservers'', JObj [(''hosts'', JObj
            [(''w1'', JObj [(''ansible_host'', JStr ''10.0.0.5'')])])])]),
         (''vars'', JObj [(''env'', JStr ''prod'')])])])"
    using d by (simp add: sample_prebuilt_value_def)
  have h4: "map_of [(''all'', JObj
        [(''children'', JObj [(''webservers'', JObj [(''hosts'', JObj
            [(''w1'', JObj [(''ansible_host'', JStr ''10.0.0.5'')])])])]),
         (''vars'', JObj [(''env'', JStr ''prod'')])])] ''all'' =
      Some (JObj
        [(''children'', JObj [(''webservers'', JObj [(''hosts'', JObj
            [(''w1'', JObj [(''ansible_host'', JStr ''10.0.0.5'')])])])]),
         (''vars'', JObj [(''env'', JStr ''prod'')])])"
    by simp
  have h5: "map_of
        [(''children'', JObj [(''webservers'', JObj [(''hosts'', JObj
            [(''w1'', JObj [(''ansible_host'', JStr ''10.0.0.5'')])])])]),
         (''vars'', JObj [(''env'', JStr ''prod'')])] ''children'' =
      Some (JObj [(''webservers'', JObj [(''hosts'', JObj
            [(''w1'', JObj [(''ansible_host'', JStr ''10.0.0.5'')])])])])"
    by simp
  have h6: "map_of
        [(''children'', JObj [(''webservers'', JObj [(''hosts'', JObj
            [(''w1'', JObj [(''ansible_host'', JStr ''10.0.0.5'')])])])]),
         (''vars'', JObj [(''env'', JStr ''prod'')])] ''vars'' =
      Some (JObj [(''env'', JStr ''prod'')])"
    by simp
  from global_vars_copied[OF h1 h2 h3 h4 h5 h6 sample_prebuilt_parsed] h1 d sample_prebuilt_parsed
  show ?thesis by blast
qed

subsection \<open>C8: evaluating List twice\<close>

text \<open>
  Claim C8. If a second acquisition yields the same snapshot as the first, which produced
  the document \<open>iv\<close> on a fresh object, then the second evaluation produces \<open>iv\<close> again,
  both on a fresh object and on the object that already holds \<open>iv\<close>.
\<close>

theorem list_twice_same_document:
  assumes "get_terraform_output loads r' = get_terraform_output loads r"
    and "get_inventory loads r init_inventory = Inr iv"
  shows "get_inventory loads r' init_inventory = Inr iv \<and> get_inventory loads r' iv = Inr iv"
proof -
  have same: "get_inventory loads r' = get_inventory loads r"
    using assms(1) by (simp add: get_inventory_def fun_eq_iff)
  from get_inventory_shape[OF assms(2)]
  consider "iv = empty_inventory"
    | ha ga tf where "iv = mk_inventory (assign ha []) (assign ga [])"
        "get_terraform_output loads r = Inr tf" "effect (parse_ansible_inventory loads tf) ha ga"
    by blast
  then have "get_inventory loads r iv = Inr iv"
  proof cases
    case 1
    show ?thesis
    proof (cases "get_terraform_output loads r")
      case (Inl e)
      with assms(2) show ?thesis by (simp add: get_inventory_def)
    next
      case (Inr tf)
      show ?thesis
      proof (cases "truthy tf")
        case False
        with Inr 1 show ?thesis by (simp add: get_inventory_def)
      next
        case True
        with Inr assms(2) have "parse_ansible_inventory loads tf (mk_inventory [] []) = Inr iv"
          by (simp add: get_inventory_def init_inventory_mk)
        from behaves_result[OF parse_ansible_inventory_behaves this]
        obtain ha ga where "iv = mk_inventory (assign ha []) (assign ga [])" by metis
        with 1 show ?thesis by (simp add: empty_inventory_def mk_inventory_def)
      qed
    qed
  next
    case 2
    show ?thesis
    proof (cases "truthy tf")
      case False
      with 2(2) assms(2) have "iv = empty_inventory" by (simp add: get_inventory_def)
      with 2(1) show ?thesis by (simp add: empty_inventory_def mk_inventory_def)
    next
      case True
      with 2 show ?thesis
        by (simp add: get_inventory_def effect_def assign_idem)
    qed
  qed
  with same assms(2) show ?thesis by simp
qed

text \<open>
  Two outputs of the command that decode to the flat sample snapshot.
\<close>

theorem list_twice_same_document_witness:
  "get_terraform_output sample_loads (Completed ''flat outputs '') =
     get_terraform_output sample_loads (Completed ''flat outputs'') \<and>
   get_inventory sample_loads (Completed ''flat outputs'') init_inventory =
     Inr sample_flat_inventory \<and>
   get_inventory sample_loads (Completed ''flat outputs '') init_inventory =
     Inr sample_flat_inventory \<and>
   get_inventory sample_loads (Completed ''flat outputs '') sample_flat_inventory =
     Inr sample_flat_inventory"
proof -
  have same: "get_terraform_output sample_loads (Completed ''flat outputs '') =
     get_terraform_output sample_loads (Completed ''flat outputs'')"
    by (simp add: get_terraform_output_def sample_loads_def)
  from list_twice_same_document[OF same sample_flat_run] same sample_flat_run
  show ?thesis by blast
qed

subsection \<open>C9: common variables of the fallback\<close>

text \<open>
  Claim C9 as stated fails: for the non-empty snapshot whose \<^verbatim>\<open>infrastructure_info.value\<close>
  is a string, \<^verbatim>\<open>get\<close> on that string raises \<^verbatim>\<open>AttributeError\<close> and no inventory is
  produced.
\<close>

theorem common_vars_from_infrastructure_info_counterexample:
  "get_terraform_output
     (map_of [(''outputs'', JObj [(''infrastructure_info'', JObj [(''value'', JStr ''production'')])])])
     (Completed ''outputs'') =
     Inr (JObj [(''infrastructure_info'', JObj [(''value'', JStr ''production'')])]) \<and>
   [(''infrastructure_info'', JObj [(''value'', JStr ''production'')])] \<noteq> [] \<and>
   map_of [(''infrastructure_info'', JObj [(''value'', JStr ''production'')])]
     ''ansible_inventory'' = None \<and>
   get_inventory
     (map_of [(''outputs'', JObj [(''infrastructure_info'', JObj [(''value'', JStr ''production'')])])])
     (Completed ''outputs'') init_inventory = Inl AttributeError"
  by code_simp

text \<open>
  Claim C9, amended. For a non-empty snapshot without the pre-built entry on which
  \<^verbatim>\<open>get_inventory\<close> completes without raising, the \<^verbatim>\<open>all\<close> group is \<^verbatim>\<open>{vars: ...}\<close> with
  exactly the three entries \<^verbatim>\<open>environment\<close>, the value at
  \<^verbatim>\<open>infrastructure_info.value.environment\<close> or \<^verbatim>\<open>unknown\<close> when a key of that path is missing,
  \<^verbatim>\<open>project_name = iac-solution\<close>, and \<^verbatim>\<open>aws_region\<close>, the value at
  \<^verbatim>\<open>infrastructure_info.value.region\<close> or \<^verbatim>\<open>us-west-2\<close> when a key of that path is missing.
\<close>

theorem common_vars_from_infrastructure_info:
  assumes "get_terraform_output loads r = Inr (JObj s)"
    and "s \<noteq> []"
    and "map_of s ''ansible_inventory'' = None"
    and "get_inventory loads r init_inventory = Inr iv"
  shows "at_path iv [''all''] =
           Some (JObj [(''vars'',
             JObj [(''environment'',
                      case at_path (JObj s) [''infrastructure_info'', ''value'', ''environment''] of
                        None \<Rightarrow> JStr ''unknown'' | Some v \<Rightarrow> v),
                   (''project_name'', JStr ''iac-solution''),
                   (''aws_region'',
                      case at_path (JObj s) [''infrastructure_info'', ''value'', ''region''] of
                        None \<Rightarrow> JStr ''us-west-2'' | Some v \<Rightarrow> v)])])"
proof -
  from assms have "parse_individual_outputs (JObj s) (mk_inventory [] []) = Inr iv"
    by (simp add: get_inventory_def fallback_when_absent init_inventory_mk)
  from fallback_stages[OF this]
  obtain hv2 gs2 iv3 where db: "extract_database (JObj s) (mk_inventory hv2 gs2) = Inr iv3"
    and cv: "add_common_vars (JObj s) iv3 = Inr iv"
    by blast
  from extract_database_shape[OF db] obtain hv3 gs3 where iv3: "iv3 = mk_inventory hv3 gs3"
    by blast
  show ?thesis
    by (subst add_common_vars_run[OF cv[unfolded iv3]], rule at_path_mk_set_group) simp
qed

text \<open>
  The flat sample snapshot gives an environment and no region.
\<close>

theorem common_vars_from_infrastructure_info_witness:
  "get_terraform_output sample_loads (Completed ''flat outputs'') =
     Inr (JObj sample_flat_outputs) \<and>
   sample_flat_outputs \<noteq> [] \<and>
   map_of sample_flat_outputs ''ansible_inventory'' = None \<and>
   get_inventory sample_loads (Completed ''flat outputs'') init_inventory =
     Inr sample_flat_inventory \<and>
   at_path sample_flat_inventory [''all''] =
     Some (JObj [(''vars'', JObj [(''environment'', JStr ''staging''),
                                  (''project_name'', JStr ''iac-solution''),
                                  (''aws_region'', JStr ''us-west-2'')])])"
proof -
  have h2: "sample_flat_outputs \<noteq> []"
    by (simp add: sample_flat_outputs_def)
  have h3: "map_of sample_flat_outputs ''ansible_inventory'' = None"
    by (simp add: sample_flat_outputs_def)
  have e: "at_path (JObj sample_flat_outputs) [''infrastructure_info'', ''value'', ''environment'']
      = Some (JStr ''staging'')"
    by (simp add: sample_flat_outputs_def)
  have g: "at_path (JObj sample_flat_outputs) [''infrastructure_info'', ''value'', ''region'']
      = None"
    by (simp add: sample_flat_outputs_def)
  from common_vars_from_infrastructure_info[OF sample_flat_acquired h2 h3 sample_flat_run]
  have "at_path sample_flat_inventory [''all''] =
     Some (JObj [(''vars'', JObj [(''environment'', JStr ''staging''),
                                  (''project_name'', JStr ''iac-solution''),
                                  (''aws_region'', JStr ''us-west-2'')])])"
    by (simp only: e g option.simps)
  with sample_flat_acquired h2 h3 sample_flat_run show ?thesis by blast
qed

subsection \<open>C10: a pre-built entry without children\<close>

text \<open>
  Claim C10 as stated fails: when the \<^verbatim>\<open>all\<close> entry of the value is \<^verbatim>\<open>null\<close>, the value has no
  \<^verbatim>\<open>all\<close> key with a \<^verbatim>\<open>children\<close> mapping, and the membership test on \<^verbatim>\<open>None\<close> raises
  \<^verbatim>\<open>TypeError\<close>.
\<close>

theorem prebuilt_without_children_counterexample:
  "get_terraform_output
     (map_of [(''outputs'', JObj [(''ansible_inventory'',
                JObj [(''value'', JObj [(''all'', JNull)])])])])
     (Completed ''outputs'') =
     Inr (JObj [(''ansible_inventory'', JObj [(''value'', JObj [(''all'', JNull)])])]) \<and>
   at_path (JObj [(''all'', JNull)]) [''all'', ''children''] = None \<and>
   get_inventory
     (map_of [(''outputs'', JObj [(''ansible_inventory'',
                JObj [(''value'', JObj [(''all'', JNull)])])])])
     (Completed ''outputs'') init_inventory = Inl TypeError"
  by code_simp

text \<open>
  Claim C10, amended. For a snapshot whose pre-built entry is a mapping with a \<^verbatim>\<open>value\<close>
  whose (decoded) value is a mapping that has no \<^verbatim>\<open>all\<close> key, or whose \<^verbatim>\<open>all\<close> entry is a
  mapping without a \<^verbatim>\<open>children\<close> key, \<^verbatim>\<open>get_inventory\<close> on a fresh object returns exactly
  \<^verbatim>\<open>{_meta: {hostvars: {}}}\<close>: no group, no \<^verbatim>\<open>all\<close> key, and none of the fallback.
\<close>

theorem prebuilt_without_children:
  assumes "get_terraform_output loads r = Inr (JObj s)"
    and "map_of s ''ansible_inventory'' = Some (JObj e)"
    and "map_of e ''value'' = Some v"
    and "decode_if_str loads v = Inr (JObj d)"
    and "map_of d ''all'' = None \<or>
         (\<exists>a. map_of d ''all'' = Some (JObj a) \<and> map_of a ''children'' = None)"
  shows "get_inventory loads r init_inventory =
           Inr (JObj [(''_meta'', JObj [(''hostvars'', JObj [])])])"
proof -
  from assms(2) have k: "''ansible_inventory'' \<in> fst ` set s"
    by (metis map_of_eq_None_iff option.distinct(1))
  from assms(2) have t: "truthy (JObj s)" by (rule truthy_snapshot)
  from assms(5) show ?thesis
  proof
    assume "map_of d ''all'' = None"
    then have "''all'' \<notin> fst ` set d" by (simp add: map_of_eq_None_iff)
    with assms(1-4) k t show ?thesis
      by (simp add: get_inventory_def parse_ansible_inventory_def init_inventory_def)
  next
    assume "\<exists>a. map_of d ''all'' = Some (JObj a) \<and> map_of a ''children'' = None"
    then obtain a where a: "map_of d ''all'' = Some (JObj a)" and c: "map_of a ''children'' = None"
      by blast
    from a have "''all'' \<in> fst ` set d" by (metis map_of_eq_None_iff option.distinct(1))
    moreover from c have "''children'' \<notin> fst ` set a" by (simp add: map_of_eq_None_iff)
    ultimately show ?thesis
      using assms(1-4) k t a
      by (simp add: get_inventory_def parse_ansible_inventory_def init_inventory_def)
  qed
qed

text \<open>
  A pre-built value given as a JSON text whose \<^verbatim>\<open>all\<close> entry has only \<^verbatim>\<open>vars\<close>.
\<close>

theorem prebuilt_without_children_witness:
  "get_terraform_output
     (map_of [(''outputs'', JObj [(''ansible_inventory'', JObj [(''value'', JStr ''no children'')])]),
              (''no children'', JObj [(''all'', JObj [(''vars'', JObj [(''env'', JStr ''prod'')])])])])
     (Completed ''outputs'') =
     Inr (JObj [(''ansible_inventory'', JObj [(''value'', JStr ''no children'')])]) \<and>
   decode_if_str
     (map_of [(''outputs'', JObj [(''ansible_inventory'', JObj [(''value'', JStr ''no children'')])]),
              (''no children'', JObj [(''all'', JObj [(''vars'', JObj [(''env'', JStr ''prod'')])])])])
     (JStr ''no children'') =
     Inr (JObj [(''all'', JObj [(''vars'', JObj [(''env'', JStr ''prod'')])])]) \<and>
   get_inventory
     (map_of [(''outputs'', JObj [(''ansible_inventory'', JObj [(''value'', JStr ''no children'')])]),
              (''no children'', JObj [(''all'', JObj [(''vars'', JObj [(''env'', JStr ''prod'')])])])])
     (Completed ''outputs'') init_inventory =
     Inr (JObj [(''_meta'', JObj [(''hostvars'', JObj [])])])"
proof -
  let ?loads = "map_of [(''outputs'', JObj [(''ansible_inventory'', JObj [(''value'', JStr ''no children'')])]),
              (''no children'', JObj [(''all'', JObj [(''vars'', JObj [(''env'', JStr ''prod'')])])])]"
  have h1: "get_terraform_output ?loads (Completed ''outputs'') =
     Inr (JObj [(''ansible_inventory'', JObj [(''value'', JStr ''no children'')])])"
    by (simp add: get_terraform_output_def)
  have h2: "map_of [(''ansible_inventory'', JObj [(''value'', JStr ''no children'')])]
      ''ansible_inventory'' = Some (JObj [(''value'', JStr ''no children'')])"
    by simp
  have h3: "map_of [(''value'', JStr ''no children'')] ''value'' = Some (JStr ''no children'')"
    by simp
  have h4: "decode_if_str ?loads (JStr ''no children'') =
     Inr (JObj [(''all'', JObj [(''vars'', JObj [(''env'', JStr ''prod'')])])])"
    by (simp add: decode_if_str_def)
  have h5: "map_of [(''all'', JObj [(''vars'', JObj [(''env'', JStr ''prod'')])])] ''all'' = None \<or>
      (\<exists>a. map_of [(''all'', JObj [(''vars'', JObj [(''env'', JStr ''prod'')])])] ''all'' =
            Some (JObj a) \<and> map_of a ''children'' = None)"
    by simp
  from prebuilt_without_children[OF h1 h2 h3 h4 h5] h1 h4 show ?thesis by blast
qed

end
